theory Spec2Isabelle
  imports Complex_Main
begin

section \<open>JavaScript values used by the load generator\<close>

text \<open>
  The generator (examples/load-testing/index.js) works on integer-valued JavaScript
  numbers, strings and the results of \<^verbatim>\<open>Math.random()\<close>. Integer-valued numbers are
  modelled as \<^typ>\<open>int\<close> (or \<^typ>\<open>nat\<close> for a counter that is only reset to zero and
  incremented), which is exact below \<open>2^53\<close>. A result of \<^verbatim>\<open>Math.random()\<close> is a number
  \<open>r\<close> with \<open>0 \<le> r < 1\<close>; every binary floating point number is a rational, so
  the type of draws is the rationals of that interval, and products with a draw are taken
  exactly.
\<close>

typedef draw = "{r :: rat. 0 \<le> r \<and> r < 1}"
  by (rule exI [of _ 0]) simp

setup_lifting type_definition_draw

text \<open>The draw \<open>k / n\<close> (and \<open>0\<close> when \<open>k / n\<close> is not below one).\<close>

lift_definition drawOf :: "nat \<Rightarrow> nat \<Rightarrow> draw"
  is "\<lambda>k n. if k < n then of_nat k / of_nat n else 0"
  by simp

text \<open>Template literals print an integer in decimal: \<^verbatim>\<open>`${n}`\<close>.\<close>

fun digitsOf :: "nat \<Rightarrow> string" where
  "digitsOf n =
     (if n < 10 then [''0123456789'' ! n]
      else digitsOf (n div 10) @ [''0123456789'' ! (n mod 10)])"

declare digitsOf.simps [simp del]

definition toString :: "int \<Rightarrow> string" where
  "toString i = (if i < 0 then ''-'' @ digitsOf (nat (- i)) else digitsOf (nat i))"

section \<open>Telemetry and console output\<close>

text \<open>
  Attribute values, and the calls the generator makes on the OpenTelemetry SDK, the
  console and the page, recorded in the order in which they happen.
\<close>

datatype attrValue = S string | N int | B bool

type_synonym attrs = "(string \<times> attrValue) list"

datatype instrument = RequestCounter | RequestDuration | ActiveSpansGauge | ErrorCounter

datatype effect =
    LoggerEmit int string string attrs
      \<comment> \<open>\<^verbatim>\<open>logger.emit\<close>: severityNumber, severityText, body, attributes\<close>
  | ConsoleLog string
  | MeterAdd instrument int attrs
      \<comment> \<open>\<^verbatim>\<open>add\<close> on a counter or up-down counter\<close>
  | MeterRecord instrument int attrs
      \<comment> \<open>\<^verbatim>\<open>record\<close> on a histogram\<close>
  | SpanStart nat "nat option" string attrs
      \<comment> \<open>\<^verbatim>\<open>tracer.startSpan\<close>: the span it returns, the span of the active context
          if there is one (the parent), name, attributes\<close>
  | SpanAddEvent nat string attrs
  | SpanSetStatus nat int "string option"
      \<comment> \<open>status code and, when given, the message\<close>
  | SpanEnd nat
  | UpdateUI bool nat
      \<comment> \<open>\<^verbatim>\<open>updateUI\<close>: the running flag and the counter written to the page\<close>
  | UpdateCounter nat int
      \<comment> \<open>\<^verbatim>\<open>updateCounter\<close>: the total and the active count written to the page\<close>

section \<open>State of the generator\<close>

record config =
  minInterval :: int
  maxInterval :: int
  batchSize :: int

text \<open>
  The variables a deferred completion captures when \<^verbatim>\<open>generateSpan\<close> registers it:
  the span and the constants \<^verbatim>\<open>method\<close>, \<^verbatim>\<open>endpoint\<close>, \<^verbatim>\<open>statusCode\<close>,
  \<^verbatim>\<open>duration\<close>, \<^verbatim>\<open>isError\<close>. The counter \<^verbatim>\<open>spanCount\<close> is a variable of the
  module, not of the call, so it is not among them.
\<close>

record request =
  rq_span :: nat
  rq_method :: string
  rq_endpoint :: string
  rq_statusCode :: int
  rq_duration :: int
  rq_isError :: bool

datatype callback =
    ScheduleNext
  | EndSpan request
      \<comment> \<open>the arrow function of lines 253-294\<close>
  | EndChild nat
      \<comment> \<open>the arrow function of lines 244-248, with its \<^verbatim>\<open>childSpan\<close>\<close>

record timer =
  timerId :: nat
  delay :: rat
  callback :: callback

text \<open>
  The module's variables (\<^verbatim>\<open>config\<close>, \<^verbatim>\<open>isRunning\<close>, \<^verbatim>\<open>intervalId\<close>,
  \<^verbatim>\<open>spanCount\<close>, \<^verbatim>\<open>activeSpans\<close>), and what the program shares with its environment:
  the browser's pending timeouts and the last timer id it handed out, the number of spans
  the SDK has started, the stream \<^verbatim>\<open>Math.random()\<close> reads with the position of the
  next draw, the trace id the SDK gives each span, and the output so far.
\<close>

record state =
  config :: config
  isRunning :: bool
  intervalId :: "nat option"
  spanCount :: nat
  activeSpans :: int
  timers :: "timer list"
  timerSeq :: nat
  spanSeq :: nat
  rng :: "nat \<Rightarrow> draw"
  rngPos :: nat
  traceIds :: "nat \<Rightarrow> string"
  out :: "effect list"

text \<open>The module as loaded (lines 122-132), before any event.\<close>

definition initialState :: "(nat \<Rightarrow> draw) \<Rightarrow> (nat \<Rightarrow> string) \<Rightarrow> state" where
  "initialState rnd tids =
     \<lparr>config = \<lparr>minInterval = 100, maxInterval = 1000, batchSize = 1\<rparr>,
      isRunning = False, intervalId = None, spanCount = 0, activeSpans = 0,
      timers = [], timerSeq = 0, spanSeq = 0,
      rng = rnd, rngPos = 0, traceIds = tids, out = []\<rparr>"

subsection \<open>Environment: console, timers, random numbers, tracer\<close>

definition console_log :: "string \<Rightarrow> state \<Rightarrow> state" where
  "console_log msg s = s\<lparr>out := out s @ [ConsoleLog msg]\<rparr>"

definition emit :: "effect \<Rightarrow> state \<Rightarrow> state" where
  "emit e s = s\<lparr>out := out s @ [e]\<rparr>"

text \<open>
  \<^verbatim>\<open>setTimeout\<close> hands out a fresh positive id, as browsers do, and queues the callback;
  \<^verbatim>\<open>clearTimeout\<close> removes it if it is still pending.
\<close>

definition setTimeout :: "callback \<Rightarrow> rat \<Rightarrow> state \<Rightarrow> nat \<times> state" where
  "setTimeout cb ms s =
     (let i = Suc (timerSeq s)
      in (i, s\<lparr>timerSeq := i,
               timers := timers s @ [\<lparr>timerId = i, delay = ms, callback = cb\<rparr>]\<rparr>))"

definition clearTimeout :: "nat \<Rightarrow> state \<Rightarrow> state" where
  "clearTimeout i s = s\<lparr>timers := filter (\<lambda>t. timerId t \<noteq> i) (timers s)\<rparr>"

definition Math_random :: "state \<Rightarrow> draw \<times> state" where
  "Math_random s = (rng s (rngPos s), s\<lparr>rngPos := Suc (rngPos s)\<rparr>)"

definition startSpan :: "nat option \<Rightarrow> string \<Rightarrow> attrs \<Rightarrow> state \<Rightarrow> nat \<times> state" where
  "startSpan parent name as s =
     (let sp = Suc (spanSeq s)
      in (sp, s\<lparr>spanSeq := sp, out := out s @ [SpanStart sp parent name as]\<rparr>))"

subsection \<open>Fixed tables (lines 134-160)\<close>

definition endpoints :: "string list" where
  "endpoints = [''/api/users'', ''/api/products'', ''/api/orders'', ''/api/checkout'',
     ''/api/inventory'', ''/api/payments'', ''/api/notifications'', ''/api/analytics'']"

definition httpMethods :: "string list" where
  "httpMethods = [''GET'', ''POST'', ''PUT'', ''DELETE'']"

definition statusCodes :: "int list" where
  "statusCodes = [200, 200, 200, 200, 201, 204, 400, 404, 500]"

definition logMessages :: "string list" where
  "logMessages = [''Processing request'', ''Request completed successfully'', ''Cache hit'',
     ''Cache miss - fetching from database'', ''Database query executed'',
     ''User authenticated'', ''Session validated'', ''Rate limit check passed'',
     ''Webhook triggered'', ''Background job queued'']"

subsection \<open>Helpers (lines 162-187)\<close>

text \<open>
  \<^verbatim>\<open>arr[Math.floor(Math.random() * arr.length)]\<close>. Every call passes one of the fixed,
  non-empty tables, for which the index is in range.
\<close>

definition randomElement :: "'a list \<Rightarrow> state \<Rightarrow> 'a \<times> state" where
  "randomElement arr s =
     (case Math_random s of
        (r, s1) \<Rightarrow> (arr ! nat \<lfloor>Rep_draw r * of_nat (length arr)\<rfloor>, s1))"

definition randomDuration :: "state \<Rightarrow> int \<times> state" where
  "randomDuration s =
     (case Math_random s of (r, s1) \<Rightarrow> (\<lfloor>Rep_draw r * 500\<rfloor> + 50, s1))"

text \<open>The constants of \<^verbatim>\<open>SeverityNumber\<close> in @opentelemetry/api-logs.\<close>

definition SeverityNumber_DEBUG :: int where "SeverityNumber_DEBUG = 5"
definition SeverityNumber_INFO :: int where "SeverityNumber_INFO = 9"
definition SeverityNumber_WARN :: int where "SeverityNumber_WARN = 13"
definition SeverityNumber_ERROR :: int where "SeverityNumber_ERROR = 17"

definition getSeverityText :: "int \<Rightarrow> string" where
  "getSeverityText severityNumber =
     (if severityNumber \<le> SeverityNumber_DEBUG then ''DEBUG''
      else if severityNumber \<le> SeverityNumber_INFO then ''INFO''
      else if severityNumber \<le> SeverityNumber_WARN then ''WARN''
      else ''ERROR'')"

definition emitLog :: "string \<Rightarrow> int \<Rightarrow> attrs \<Rightarrow> state \<Rightarrow> state" where
  "emitLog message severityNumber attributes s =
     emit (LoggerEmit severityNumber (getSeverityText severityNumber) message
             ((''log.source'', S ''load-testing'') # attributes)) s"

subsection \<open>One simulated request (lines 189-296)\<close>

text \<open>
  The loop of lines 227-232. \<^verbatim>\<open>Math.floor(a / b)\<close> on the numbers of this program is the
  floor of the exact quotient.
\<close>

function addEvents :: "nat \<Rightarrow> int \<Rightarrow> int \<Rightarrow> int \<Rightarrow> state \<Rightarrow> state" where
  "addEvents sp duration numEvents i s =
     (if i < numEvents then
        (case randomElement logMessages s of
           (msg, s1) \<Rightarrow>
             addEvents sp duration numEvents (i + 1)
               (emit (SpanAddEvent sp msg
                  [(''event.index'', N i),
                   (''timestamp.relative'',
                      S (toString \<lfloor>(of_int (duration * (i + 1)) :: rat) / of_int (numEvents + 1)\<rfloor>
                         @ ''ms''))]) s1))
      else s)"
  by pat_completeness auto
termination
  by (relation "measure (\<lambda>(sp, duration, numEvents, i, s). nat (numEvents - i))") auto

declare addEvents.simps [simp del]

text \<open>
  \<^verbatim>\<open>generateSpan\<close> up to the call of \<^verbatim>\<open>context.with\<close> (lines 190-222): the draws,
  the counters, the primary span, the request counter and the start log. It returns, with
  the new state, the variables that the deferred completion captures.
\<close>

definition openSpan :: "state \<Rightarrow> request \<times> state" where
  "openSpan s0 =
     (case randomElement endpoints s0 of (endpoint, s1) \<Rightarrow>
      case randomElement httpMethods s1 of (method, s2) \<Rightarrow>
      case randomElement statusCodes s2 of (statusCode, s3) \<Rightarrow>
      case randomDuration s3 of (duration, s4) \<Rightarrow>
      let isError = (statusCode \<ge> 400);
          s5 = s4\<lparr>spanCount := Suc (spanCount s4)\<rparr>;
          s6 = s5\<lparr>activeSpans := activeSpans s5 + 1\<rparr>;
          s7 = emit (MeterAdd ActiveSpansGauge 1 []) s6
      in
      case startSpan None (method @ '' '' @ endpoint)
             [(''http.method'', S method),
              (''http.url'', S (''https://example.com'' @ endpoint)),
              (''http.route'', S endpoint),
              (''http.status_code'', N statusCode),
              (''span.number'', N (int (spanCount s7)))] s7 of (span', s8) \<Rightarrow>
      let s9 = emit (MeterAdd RequestCounter 1
                  [(''method'', S method), (''endpoint'', S endpoint),
                   (''status_code'', S (toString statusCode))]) s8;
          s10 = emitLog (''Starting '' @ method @ '' '' @ endpoint) SeverityNumber_INFO
                  [(''http.method'', S method), (''http.url'', S endpoint),
                   (''span.id'', N (int (spanCount s9)))] s9
      in (\<lparr>rq_span = span', rq_method = method, rq_endpoint = endpoint,
           rq_statusCode = statusCode, rq_duration = duration, rq_isError = isError\<rparr>, s10))"

text \<open>
  The function passed to \<^verbatim>\<open>context.with\<close> (lines 225-294), run at once: the events,
  the child span if any, and the registration of the deferred completion. The threshold
  \<^verbatim>\<open>0.7\<close> is taken as the rational \<open>7/10\<close>.
\<close>

definition withSpan :: "request \<Rightarrow> state \<Rightarrow> state" where
  "withSpan rq s10 =
     (case Math_random s10 of (r1, s11) \<Rightarrow>
      let numEvents = \<lfloor>Rep_draw r1 * 3\<rfloor> + 1;
          s12 = addEvents (rq_span rq) (rq_duration rq) numEvents 0 s11
      in
      case Math_random s12 of (r2, s13) \<Rightarrow>
      let s14 =
            (if Rep_draw r2 > 7 / 10 then
               (case startSpan (Some (rq_span rq)) ''database.query''
                       [(''db.system'', S ''postgresql''), (''db.operation'', S ''SELECT''),
                        (''db.name'', S ''mydb'')] s13 of
                  (childSpan, s13a) \<Rightarrow>
                    snd (setTimeout (EndChild childSpan) (of_int (rq_duration rq) / 2) s13a))
             else s13)
      in snd (setTimeout (EndSpan rq) (of_int (rq_duration rq)) s14))"

text \<open>\<^verbatim>\<open>generateSpan\<close>, also returning the captured variables.\<close>

definition generateSpan_body :: "state \<Rightarrow> request \<times> state" where
  "generateSpan_body s = (case openSpan s of (rq, s10) \<Rightarrow> (rq, withSpan rq s10))"

definition generateSpan :: "state \<Rightarrow> state" where
  "generateSpan s = snd (generateSpan_body s)"

text \<open>The deferred completion of the child span (lines 244-248).\<close>

definition endChild :: "nat \<Rightarrow> state \<Rightarrow> state" where
  "endChild childSpan s =
     (case Math_random s of
        (r, s1) \<Rightarrow>
          emit (SpanEnd childSpan)
            (emit (SpanAddEvent childSpan ''Query executed''
                     [(''db.rows_affected'', N \<lfloor>Rep_draw r * 100\<rfloor>)]) s1))"

text \<open>
  The deferred completion of the primary span (lines 253-294). It reads \<^verbatim>\<open>spanCount\<close>
  from the module, at the time it runs.
\<close>

definition endSpan :: "request \<Rightarrow> state \<Rightarrow> state" where
  "endSpan rq s =
     (let span' = rq_span rq; method = rq_method rq; endpoint = rq_endpoint rq;
          statusCode = rq_statusCode rq; duration = rq_duration rq;
          s1 = (if rq_isError rq then
                  emitLog (''Error: '' @ method @ '' '' @ endpoint @ '' returned ''
                             @ toString statusCode)
                    SeverityNumber_ERROR
                    [(''http.method'', S method), (''http.url'', S endpoint),
                     (''http.status_code'', N statusCode), (''error'', B True)]
                    (emit (MeterAdd ErrorCounter 1
                             [(''status_code'', S (toString statusCode)),
                              (''endpoint'', S endpoint)])
                       (emit (SpanSetStatus span' 2
                                (Some (''HTTP '' @ toString statusCode @ '' Error''))) s))
                else
                  emitLog (''Completed '' @ method @ '' '' @ endpoint @ '' in ''
                             @ toString duration @ ''ms'')
                    SeverityNumber_INFO
                    [(''http.method'', S method), (''http.url'', S endpoint),
                     (''duration_ms'', N duration)]
                    (emit (SpanSetStatus span' 1 None) s));
          s2 = emit (MeterRecord RequestDuration duration
                       [(''method'', S method), (''endpoint'', S endpoint),
                        (''status_code'', S (toString statusCode))]) s1;
          s3 = emit (SpanEnd span') s2;
          s4 = s3\<lparr>activeSpans := activeSpans s3 - 1\<rparr>;
          s5 = emit (MeterAdd ActiveSpansGauge (- 1) []) s4;
          s6 = console_log (''[Span #'' @ toString (int (spanCount s5)) @ ''] '' @ method
                              @ '' '' @ endpoint @ '' -> '' @ toString statusCode
                              @ '' ('' @ toString duration @ ''ms)'') s5
      in if spanCount s6 mod 10 = 0
         then console_log (''Trace ID: '' @ traceIds s6 span') s6
         else s6)"

subsection \<open>What the environment calls leave unchanged\<close>

lemma Rep_draw_bounds: "0 \<le> Rep_draw r" "Rep_draw r < 1"
  using Rep_draw [of r] by simp_all

lemma emit_fields [simp]:
  "config (emit e s) = config s" "isRunning (emit e s) = isRunning s"
  "intervalId (emit e s) = intervalId s" "spanCount (emit e s) = spanCount s"
  "activeSpans (emit e s) = activeSpans s" "timers (emit e s) = timers s"
  "timerSeq (emit e s) = timerSeq s" "spanSeq (emit e s) = spanSeq s"
  "rng (emit e s) = rng s" "rngPos (emit e s) = rngPos s"
  "traceIds (emit e s) = traceIds s" "out (emit e s) = out s @ [e]"
  by (simp_all add: emit_def)

lemma emitLog_fields [simp]:
  "config (emitLog m v a s) = config s" "isRunning (emitLog m v a s) = isRunning s"
  "intervalId (emitLog m v a s) = intervalId s" "spanCount (emitLog m v a s) = spanCount s"
  "activeSpans (emitLog m v a s) = activeSpans s" "timers (emitLog m v a s) = timers s"
  "timerSeq (emitLog m v a s) = timerSeq s" "spanSeq (emitLog m v a s) = spanSeq s"
  "rng (emitLog m v a s) = rng s" "rngPos (emitLog m v a s) = rngPos s"
  "traceIds (emitLog m v a s) = traceIds s"
  by (simp_all add: emitLog_def)

lemma Math_random_fields [simp]:
  "config (snd (Math_random s)) = config s" "isRunning (snd (Math_random s)) = isRunning s"
  "intervalId (snd (Math_random s)) = intervalId s" "spanCount (snd (Math_random s)) = spanCount s"
  "activeSpans (snd (Math_random s)) = activeSpans s" "timers (snd (Math_random s)) = timers s"
  "timerSeq (snd (Math_random s)) = timerSeq s" "spanSeq (snd (Math_random s)) = spanSeq s"
  "rng (snd (Math_random s)) = rng s" "rngPos (snd (Math_random s)) = Suc (rngPos s)"
  "traceIds (snd (Math_random s)) = traceIds s" "out (snd (Math_random s)) = out s"
  by (simp_all add: Math_random_def)

lemma randomElement_snd [simp]: "snd (randomElement arr s) = snd (Math_random s)"
  by (simp add: randomElement_def split_beta)

lemma randomDuration_snd [simp]: "snd (randomDuration s) = snd (Math_random s)"
  by (simp add: randomDuration_def split_beta)

lemma startSpan_fields [simp]:
  "config (snd (startSpan p n a s)) = config s" "isRunning (snd (startSpan p n a s)) = isRunning s"
  "intervalId (snd (startSpan p n a s)) = intervalId s" "spanCount (snd (startSpan p n a s)) = spanCount s"
  "activeSpans (snd (startSpan p n a s)) = activeSpans s" "timers (snd (startSpan p n a s)) = timers s"
  "timerSeq (snd (startSpan p n a s)) = timerSeq s" "spanSeq (snd (startSpan p n a s)) = Suc (spanSeq s)"
  "rng (snd (startSpan p n a s)) = rng s" "rngPos (snd (startSpan p n a s)) = rngPos s"
  "traceIds (snd (startSpan p n a s)) = traceIds s"
  "out (snd (startSpan p n a s)) = out s @ [SpanStart (Suc (spanSeq s)) p n a]"
  "fst (startSpan p n a s) = Suc (spanSeq s)"
  by (simp_all add: startSpan_def Let_def)

lemma setTimeout_fields [simp]:
  "config (snd (setTimeout cb ms s)) = config s" "isRunning (snd (setTimeout cb ms s)) = isRunning s"
  "intervalId (snd (setTimeout cb ms s)) = intervalId s" "spanCount (snd (setTimeout cb ms s)) = spanCount s"
  "activeSpans (snd (setTimeout cb ms s)) = activeSpans s"
  "timers (snd (setTimeout cb ms s)) = timers s @ [\<lparr>timerId = Suc (timerSeq s), delay = ms, callback = cb\<rparr>]"
  "timerSeq (snd (setTimeout cb ms s)) = Suc (timerSeq s)" "spanSeq (snd (setTimeout cb ms s)) = spanSeq s"
  "rng (snd (setTimeout cb ms s)) = rng s" "rngPos (snd (setTimeout cb ms s)) = rngPos s"
  "traceIds (snd (setTimeout cb ms s)) = traceIds s" "out (snd (setTimeout cb ms s)) = out s"
  "fst (setTimeout cb ms s) = Suc (timerSeq s)"
  by (simp_all add: setTimeout_def Let_def)

lemma addEvents_fields [simp]:
  "config (addEvents sp d n i s) = config s \<and> isRunning (addEvents sp d n i s) = isRunning s
   \<and> intervalId (addEvents sp d n i s) = intervalId s \<and> spanCount (addEvents sp d n i s) = spanCount s
   \<and> activeSpans (addEvents sp d n i s) = activeSpans s \<and> timers (addEvents sp d n i s) = timers s
   \<and> timerSeq (addEvents sp d n i s) = timerSeq s \<and> spanSeq (addEvents sp d n i s) = spanSeq s
   \<and> rng (addEvents sp d n i s) = rng s \<and> traceIds (addEvents sp d n i s) = traceIds s"
proof (induction sp d n i s rule: addEvents.induct)
  case (1 sp d n i s)
  show ?case
  proof (cases "i < n")
    case True
    obtain msg s1 where p: "randomElement logMessages s = (msg, s1)" by force
    have s1: "s1 = snd (Math_random s)" using randomElement_snd [of logMessages s] p by simp
    from True p "1.IH" [OF True p [symmetric]] show ?thesis
      by (subst (1 2 3 4 5 6 7 8 9 10) addEvents.simps) (simp add: s1)
  next
    case False
    then show ?thesis by (subst (1 2 3 4 5 6 7 8 9 10) addEvents.simps) simp
  qed
qed

lemma config_generateSpan: "config (generateSpan s) = config s"
  by (simp add: generateSpan_def generateSpan_body_def openSpan_def withSpan_def Let_def split_beta)

subsection \<open>The scheduler (lines 298-367)\<close>

text \<open>The loop of lines 320-322.\<close>

function generateBatch :: "int \<Rightarrow> state \<Rightarrow> state" where
  "generateBatch i s =
     (if i < batchSize (config s) then generateBatch (i + 1) (generateSpan s) else s)"
  by pat_completeness auto
termination
  by (relation "measure (\<lambda>(i, s). nat (batchSize (config s) - i))")
     (auto simp: config_generateSpan)

declare generateBatch.simps [simp del]

text \<open>Lines 325-326, for the configuration \<open>c\<close> and the draw \<open>r\<close>.\<close>

definition nextInterval :: "config \<Rightarrow> draw \<Rightarrow> int" where
  "nextInterval c r =
     (let range = maxInterval c - minInterval c
      in \<lfloor>Rep_draw r * of_int range\<rfloor> + minInterval c)"

definition updateUI :: "state \<Rightarrow> state" where
  "updateUI s = emit (UpdateUI (isRunning s) (spanCount s)) s"

definition updateCounter :: "state \<Rightarrow> state" where
  "updateCounter s = emit (UpdateCounter (spanCount s) (activeSpans s)) s"

definition scheduleNext :: "state \<Rightarrow> state" where
  "scheduleNext s =
     (if \<not> isRunning s then s
      else
        let s1 = generateBatch 0 s
        in case Math_random s1 of
             (r, s2) \<Rightarrow>
               (case setTimeout ScheduleNext (of_int (nextInterval (config s2) r)) s2 of
                  (i, s3) \<Rightarrow> s3\<lparr>intervalId := Some i\<rparr>))"

definition startLoadTest :: "state \<Rightarrow> state" where
  "startLoadTest s =
     (if isRunning s then console_log ''Load test already running'' s
      else
        let s1 = s\<lparr>isRunning := True\<rparr>;
            s2 = s1\<lparr>spanCount := 0\<rparr>;
            s3 = s2\<lparr>activeSpans := 0\<rparr>;
            s4 = emitLog ''Load test started'' SeverityNumber_INFO
                   [(''test.action'', S ''start'')] s3;
            s5 = console_log ''Starting continuous load test...'' s4;
            s6 = updateUI s5
        in scheduleNext s6)"

text \<open>
  The three arguments are the results of \<^verbatim>\<open>parseInt\<close> on the fields of the page;
  \<open>None\<close> is \<^verbatim>\<open>NaN\<close>.
\<close>

definition updateConfig :: "int option \<Rightarrow> int option \<Rightarrow> int option \<Rightarrow> state \<Rightarrow> state" where
  "updateConfig minInterval' maxInterval' batchSize' s =
     (let s1 = (case minInterval' of
                  Some v \<Rightarrow> if v \<ge> 10 then s\<lparr>config := (config s)\<lparr>minInterval := v\<rparr>\<rparr> else s
                | None \<Rightarrow> s);
          s2 = (case maxInterval' of
                  Some v \<Rightarrow> if v \<ge> minInterval (config s1)
                            then s1\<lparr>config := (config s1)\<lparr>maxInterval := v\<rparr>\<rparr> else s1
                | None \<Rightarrow> s1);
          s3 = (case batchSize' of
                  Some v \<Rightarrow> if v \<ge> 1 then s2\<lparr>config := (config s2)\<lparr>batchSize := v\<rparr>\<rparr> else s2
                | None \<Rightarrow> s2)
      in console_log (''Config updated: interval='' @ toString (minInterval (config s3)) @ ''-''
                        @ toString (maxInterval (config s3)) @ ''ms, batch=''
                        @ toString (batchSize (config s3))) s3)"

text \<open>\<^verbatim>\<open>if (intervalId)\<close> holds for an id other than \<^verbatim>\<open>null\<close> and \<open>0\<close>.\<close>

definition stopLoadTest :: "state \<Rightarrow> state" where
  "stopLoadTest s =
     (if \<not> isRunning s then console_log ''Load test not running'' s
      else
        let s1 = s\<lparr>isRunning := False\<rparr>;
            s2 = (case intervalId s1 of
                    Some i \<Rightarrow> if i \<noteq> 0 then (clearTimeout i s1)\<lparr>intervalId := None\<rparr> else s1
                  | None \<Rightarrow> s1);
            s3 = emitLog ''Load test stopped'' SeverityNumber_INFO
                   [(''test.action'', S ''stop''), (''total.spans'', N (int (spanCount s2)))] s2;
            s4 = console_log (''Load test stopped. Total spans generated: ''
                                @ toString (int (spanCount s3))) s3
        in updateUI s4)"

subsection \<open>The event loop\<close>

text \<open>
  What the browser can do to the module once it is loaded: a click on either button, an
  input in a configuration field (with the three parsed fields), the periodic refresh of
  the counters, and the expiry of a pending timeout, which is removed and its callback
  run. The browser runs timeouts in the order of their expiry; here any pending one may
  run, which covers every order.
\<close>

datatype event =
    ClickStart
  | ClickStop
  | Input "int option" "int option" "int option"
  | Refresh
  | Timeout nat

fun runCallback :: "callback \<Rightarrow> state \<Rightarrow> state" where
  "runCallback ScheduleNext s = scheduleNext s"
| "runCallback (EndSpan rq) s = endSpan rq s"
| "runCallback (EndChild childSpan) s = endChild childSpan s"

definition expire :: "nat \<Rightarrow> state \<Rightarrow> state" where
  "expire i s =
     (case find (\<lambda>t. timerId t = i) (timers s) of
        None \<Rightarrow> s
      | Some t \<Rightarrow> runCallback (callback t) (clearTimeout i s))"

fun step :: "state \<Rightarrow> event \<Rightarrow> state" where
  "step s ClickStart = startLoadTest s"
| "step s ClickStop = stopLoadTest s"
| "step s (Input a b c) = updateConfig a b c s"
| "step s Refresh = updateCounter s"
| "step s (Timeout i) = expire i s"

definition run :: "state \<Rightarrow> event list \<Rightarrow> state" where
  "run s evs = foldl step s evs"

section \<open>The collector stub (backend/main.go)\<close>

text \<open>
  A request as the handler sees it, and one exchange: the unread part of the request body,
  whether the body was closed, the response header map, every status code passed to
  \<^verbatim>\<open>WriteHeader\<close> (by the handler or, implicitly, by the first \<^verbatim>\<open>Write\<close>), the
  response body, and the lines logged. A byte is a \<^typ>\<open>char\<close>. The request body is one
  that arrives whole: reading it ends with end-of-file, not with an error.
\<close>

record httpRequest =
  Method :: string
  Path :: string
  RemoteAddr :: string

record exchange =
  reqBody :: string
  reqBodyClosed :: bool
  respHeader :: "string \<rightharpoonup> string"
  respStatus :: "int list"
  respBody :: string
  logged :: "string list"

definition newExchange :: "string \<Rightarrow> exchange" where
  "newExchange body =
     \<lparr>reqBody = body, reqBodyClosed = False, respHeader = Map.empty, respStatus = [],
      respBody = [], logged = []\<rparr>"

definition MethodOptions :: string where "MethodOptions = ''OPTIONS''"
definition MethodPost :: string where "MethodPost = ''POST''"
definition StatusOK :: int where "StatusOK = 200"
definition StatusNoContent :: int where "StatusNoContent = 204"
definition StatusNotFound :: int where "StatusNotFound = 404"
definition StatusMethodNotAllowed :: int where "StatusMethodNotAllowed = 405"

definition Header_Set :: "string \<Rightarrow> string \<Rightarrow> exchange \<Rightarrow> exchange" where
  "Header_Set k v x = x\<lparr>respHeader := (respHeader x)(k \<mapsto> v)\<rparr>"

definition Header_Del :: "string \<Rightarrow> exchange \<Rightarrow> exchange" where
  "Header_Del k x = x\<lparr>respHeader := (respHeader x)(k := None)\<rparr>"

definition WriteHeader :: "int \<Rightarrow> exchange \<Rightarrow> exchange" where
  "WriteHeader code x = x\<lparr>respStatus := respStatus x @ [code]\<rparr>"

text \<open>\<^verbatim>\<open>Write\<close> sends the status 200 first when no status has been sent.\<close>

definition Write :: "string \<Rightarrow> exchange \<Rightarrow> exchange" where
  "Write bs x =
     (let x1 = (if respStatus x = [] then WriteHeader StatusOK x else x)
      in x1\<lparr>respBody := respBody x1 @ bs\<rparr>)"

text \<open>
  \<^verbatim>\<open>http.Error\<close> of the Go library: plain-text headers, the status, the message and a
  newline.
\<close>

definition http_Error :: "string \<Rightarrow> int \<Rightarrow> exchange \<Rightarrow> exchange" where
  "http_Error msg code x =
     Write (msg @ [CHR 0x0A])
       (WriteHeader code
          (Header_Set ''X-Content-Type-Options'' ''nosniff''
             (Header_Set ''Content-Type'' ''text/plain; charset=utf-8''
                (Header_Del ''Content-Length'' x))))"

text \<open>
  \<^verbatim>\<open>io.Copy(io.Discard, r.Body)\<close>: the library reads the body in chunks of at most 8192
  bytes until none is left and returns the number of bytes read.
\<close>

function io_Copy_Discard :: "nat \<Rightarrow> string \<Rightarrow> nat \<times> string" where
  "io_Copy_Discard n body =
     (if body = [] then (n, body)
      else io_Copy_Discard (n + length (take 8192 body)) (drop 8192 body))"
  by pat_completeness auto
termination
  by (relation "measure (\<lambda>(n, body). length body)") auto

declare io_Copy_Discard.simps [simp del]

definition log_Printf :: "string \<Rightarrow> exchange \<Rightarrow> exchange" where
  "log_Printf line x = x\<lparr>logged := logged x @ [line]\<rparr>"

text \<open>The handler that \<^verbatim>\<open>registerEndpoint\<close> installs (lines 12-37).\<close>

definition handler :: "httpRequest \<Rightarrow> exchange \<Rightarrow> exchange" where
  "handler r x0 =
     (let x1 = Header_Set ''Access-Control-Allow-Origin'' ''*'' x0;
          x2 = Header_Set ''Access-Control-Allow-Methods'' ''POST, OPTIONS'' x1;
          x3 = Header_Set ''Access-Control-Allow-Headers'' ''*'' x2;
          x4 = Header_Set ''Access-Control-Max-Age'' ''86400'' x3
      in if Method r = MethodOptions then WriteHeader StatusNoContent x4
         else if Method r \<noteq> MethodPost then
           http_Error ''method not allowed'' StatusMethodNotAllowed
             (Header_Set ''Allow'' MethodPost x4)
         else
           (case io_Copy_Discard 0 (reqBody x4) of
              (n, rest) \<Rightarrow>
                let x5 = x4\<lparr>reqBody := rest\<rparr>;
                    x6 = x5\<lparr>reqBodyClosed := True\<rparr>;
                    x7 = log_Printf (''request: method='' @ Method r @ '' path='' @ Path r
                                       @ '' size_bytes='' @ toString (int n) @ '' remote=''
                                       @ RemoteAddr r) x6;
                    x8 = WriteHeader StatusOK x7
                in Write ''{}'' x8))"

text \<open>
  The three registrations of lines 40-42, and the multiplexer: a pattern without a
  trailing slash matches exactly its path, and any other path gets the library's 404.
\<close>

definition registered :: "string list" where
  "registered = [''/v1/traces'', ''/v1/logs'', ''/v1/metrics'']"

definition serve :: "httpRequest \<Rightarrow> exchange \<Rightarrow> exchange" where
  "serve r x =
     (if Path r \<in> set registered then handler r x
      else http_Error ''404 page not found'' StatusNotFound x)"

section \<open>Notions used in the properties\<close>

subsection \<open>The collector stub\<close>

text \<open>
  The four CORS headers of lines 13-16 are on the response.
\<close>

definition cors :: "exchange \<Rightarrow> bool" where
  "cors x \<longleftrightarrow>
     respHeader x ''Access-Control-Allow-Origin'' = Some ''*'' \<and>
     respHeader x ''Access-Control-Allow-Methods'' = Some ''POST, OPTIONS'' \<and>
     respHeader x ''Access-Control-Allow-Headers'' = Some ''*'' \<and>
     respHeader x ''Access-Control-Max-Age'' = Some ''86400''"

subsection \<open>Observing the output\<close>

text \<open>
  What was emitted between two states, and the calls of one kind in it: the attributes of
  the events added to a span, the status settings, the increments of the error counter,
  the log entries and the histogram records.
\<close>

definition emitted :: "state \<Rightarrow> state \<Rightarrow> effect list" where
  "emitted s s' = drop (length (out s)) (out s')"

fun spanEvents :: "nat \<Rightarrow> effect list \<Rightarrow> attrs list" where
  "spanEvents sp [] = []"
| "spanEvents sp (SpanAddEvent sp' m a # es) =
     (if sp' = sp then a # spanEvents sp es else spanEvents sp es)"
| "spanEvents sp (e # es) = spanEvents sp es"

definition setStatusCalls :: "effect list \<Rightarrow> effect list" where
  "setStatusCalls = filter (\<lambda>e. case e of SpanSetStatus sp c m \<Rightarrow> True | _ \<Rightarrow> False)"

definition errorCounterAdds :: "effect list \<Rightarrow> effect list" where
  "errorCounterAdds = filter (\<lambda>e. case e of MeterAdd i v a \<Rightarrow> i = ErrorCounter | _ \<Rightarrow> False)"

definition logEntries :: "effect list \<Rightarrow> effect list" where
  "logEntries = filter (\<lambda>e. case e of LoggerEmit v t m a \<Rightarrow> True | _ \<Rightarrow> False)"

definition histogramRecords :: "effect list \<Rightarrow> effect list" where
  "histogramRecords = filter (\<lambda>e. case e of MeterRecord i v a \<Rightarrow> True | _ \<Rightarrow> False)"

text \<open>
  The attributes that the specification gives the event at \<open>eventIndex\<close> among
  \<open>eventCount\<close> events: its index, and \<open>duration * (eventIndex + 1) / (eventCount + 1)\<close>,
  rounded down, in milliseconds.
\<close>

definition eventLabel :: "int \<Rightarrow> int \<Rightarrow> int \<Rightarrow> attrs" where
  "eventLabel duration eventCount eventIndex =
     [(''event.index'', N eventIndex),
      (''timestamp.relative'',
         S (toString ((duration * (eventIndex + 1)) div (eventCount + 1)) @ ''ms''))]"

subsection \<open>Timers and requests in flight\<close>

text \<open>
  \<^verbatim>\<open>generateSpan\<close> started a second span, the child, in this call.
\<close>

definition opensChild :: "state \<Rightarrow> bool" where
  "opensChild s \<longleftrightarrow> spanSeq (generateSpan s) = Suc (Suc (spanSeq s))"

text \<open>
  The state in which \<^verbatim>\<open>startLoadTest\<close> calls \<^verbatim>\<open>scheduleNext\<close> (lines 304-313).
\<close>

definition started :: "state \<Rightarrow> state" where
  "started s =
     updateUI (console_log ''Starting continuous load test...''
       (emitLog ''Load test started'' SeverityNumber_INFO [(''test.action'', S ''start'')]
          (s\<lparr>isRunning := True, spanCount := 0, activeSpans := 0\<rparr>)))"

text \<open>
  The requests in flight are the pending completions of primary spans. A sequence of
  events is calm when every click on Start that takes effect finds no request in flight.
  The timers are in order when their ids are distinct and not above the last id handed
  out, and \<^verbatim>\<open>intervalId\<close> names no timer but one of \<^verbatim>\<open>scheduleNext\<close>. The state
  is balanced when, moreover, the active count is the number of requests in flight.
\<close>

definition isEndSpan :: "timer \<Rightarrow> bool" where
  "isEndSpan t = (case callback t of EndSpan rq \<Rightarrow> True | _ \<Rightarrow> False)"

definition inflight :: "state \<Rightarrow> nat" where
  "inflight s = length (filter isEndSpan (timers s))"

fun calm :: "state \<Rightarrow> event list \<Rightarrow> bool" where
  "calm s [] = True"
| "calm s (e # es) =
     ((e = ClickStart \<and> \<not> isRunning s \<longrightarrow> inflight s = 0) \<and> calm (step s e) es)"

definition timersOk :: "state \<Rightarrow> bool" where
  "timersOk s \<longleftrightarrow>
     distinct (map timerId (timers s)) \<and>
     (\<forall>t \<in> set (timers s). timerId t \<le> timerSeq s) \<and>
     (case intervalId s of
        None \<Rightarrow> True
      | Some i \<Rightarrow>
          i \<le> timerSeq s \<and>
          (\<forall>t \<in> set (timers s). timerId t = i \<longrightarrow> callback t = ScheduleNext))"

definition balanced :: "state \<Rightarrow> bool" where
  "balanced s \<longleftrightarrow> timersOk s \<and> activeSpans s = int (inflight s)"

subsection \<open>Validity of a configuration candidate\<close>

text \<open>
  The predicates of the specification on the parsed fields: numeric and at least 10;
  numeric and not below the current \<^verbatim>\<open>minInterval\<close>; numeric and at least 1.
\<close>

definition validMin :: "int option \<Rightarrow> bool" where
  "validMin cand = (case cand of Some v \<Rightarrow> 10 \<le> v | None \<Rightarrow> False)"

definition validMax :: "int \<Rightarrow> int option \<Rightarrow> bool" where
  "validMax currentMin cand = (case cand of Some v \<Rightarrow> currentMin \<le> v | None \<Rightarrow> False)"

definition validBatch :: "int option \<Rightarrow> bool" where
  "validBatch cand = (case cand of Some v \<Rightarrow> 1 \<le> v | None \<Rightarrow> False)"

subsection \<open>Inputs for running the model\<close>

text \<open>
  A stream of draws and a table of trace ids: every draw is \<open>1/2\<close>, and span \<open>n\<close>
  has the trace id \<open>trace-n\<close>.
\<close>

definition halves :: "nat \<Rightarrow> draw" where
  "halves i = drawOf 1 2"

definition exampleIds :: "nat \<Rightarrow> string" where
  "exampleIds sp = ''trace-'' @ digitsOf sp"

section \<open>Lemmas\<close>

subsection \<open>The collector stub\<close>

lemma io_Copy_Discard_all: "io_Copy_Discard n body = (n + length body, [])"
proof (induction n body rule: io_Copy_Discard.induct)
  case (1 n body)
  show ?case
  proof (cases "body = []")
    case True
    then show ?thesis by (subst io_Copy_Discard.simps) simp
  next
    case False
    with "1.IH" show ?thesis by (subst io_Copy_Discard.simps) simp
  qed
qed

lemma Header_Set_fields [simp]:
  "respHeader (Header_Set k v x) = (respHeader x)(k \<mapsto> v)"
  "respStatus (Header_Set k v x) = respStatus x" "respBody (Header_Set k v x) = respBody x"
  "reqBody (Header_Set k v x) = reqBody x" "reqBodyClosed (Header_Set k v x) = reqBodyClosed x"
  "logged (Header_Set k v x) = logged x"
  by (simp_all add: Header_Set_def)

lemma Header_Del_fields [simp]:
  "respHeader (Header_Del k x) = (respHeader x)(k := None)"
  "respStatus (Header_Del k x) = respStatus x" "respBody (Header_Del k x) = respBody x"
  "reqBody (Header_Del k x) = reqBody x" "reqBodyClosed (Header_Del k x) = reqBodyClosed x"
  "logged (Header_Del k x) = logged x"
  by (simp_all add: Header_Del_def)

lemma WriteHeader_fields [simp]:
  "respHeader (WriteHeader c x) = respHeader x"
  "respStatus (WriteHeader c x) = respStatus x @ [c]" "respBody (WriteHeader c x) = respBody x"
  "reqBody (WriteHeader c x) = reqBody x" "reqBodyClosed (WriteHeader c x) = reqBodyClosed x"
  "logged (WriteHeader c x) = logged x"
  by (simp_all add: WriteHeader_def)

lemma Write_fields [simp]:
  "respHeader (Write bs x) = respHeader x"
  "respStatus (Write bs x) = (if respStatus x = [] then [StatusOK] else respStatus x)"
  "respBody (Write bs x) = respBody x @ bs"
  "reqBody (Write bs x) = reqBody x" "reqBodyClosed (Write bs x) = reqBodyClosed x"
  "logged (Write bs x) = logged x"
  by (simp_all add: Write_def Let_def)

lemma log_Printf_fields [simp]:
  "respHeader (log_Printf l x) = respHeader x"
  "respStatus (log_Printf l x) = respStatus x" "respBody (log_Printf l x) = respBody x"
  "reqBody (log_Printf l x) = reqBody x" "reqBodyClosed (log_Printf l x) = reqBodyClosed x"
  "logged (log_Printf l x) = logged x @ [l]"
  by (simp_all add: log_Printf_def)

lemma handler_OPTIONS:
  assumes "Method r = ''OPTIONS''"
  shows "respStatus (handler r (newExchange body)) = [204]"
    "respBody (handler r (newExchange body)) = []"
    "cors (handler r (newExchange body))"
  using assms
  by (simp_all add: handler_def Let_def MethodOptions_def StatusNoContent_def newExchange_def
      cors_def)

lemma handler_other:
  assumes "Method r \<noteq> ''OPTIONS''" "Method r \<noteq> ''POST''"
  shows "respStatus (handler r (newExchange body)) = [405]"
    "respHeader (handler r (newExchange body)) ''Allow'' = Some ''POST''"
    "cors (handler r (newExchange body))"
  using assms
  by (simp_all add: handler_def Let_def MethodOptions_def MethodPost_def http_Error_def
      StatusMethodNotAllowed_def newExchange_def cors_def)

lemma handler_POST:
  assumes "Method r = ''POST''"
  shows "respStatus (handler r (newExchange body)) = [200]"
    "respBody (handler r (newExchange body)) = ''{}''"
    "reqBody (handler r (newExchange body)) = []"
    "reqBodyClosed (handler r (newExchange body))"
    "logged (handler r (newExchange body)) =
       [''request: method=POST path='' @ Path r @ '' size_bytes=''
          @ toString (int (length body)) @ '' remote='' @ RemoteAddr r]"
    "cors (handler r (newExchange body))"
  using assms
  by (simp_all add: handler_def Let_def MethodOptions_def MethodPost_def StatusOK_def
      io_Copy_Discard_all newExchange_def cors_def)

subsection \<open>Draws and durations\<close>

lemma floor_draw_bounds:
  assumes "0 < n"
  shows "0 \<le> \<lfloor>Rep_draw r * of_int n\<rfloor>" "\<lfloor>Rep_draw r * of_int n\<rfloor> < n"
proof -
  have r: "0 \<le> Rep_draw r" "Rep_draw r < 1" by (rule Rep_draw_bounds)+
  have n: "(0::rat) < of_int n" using assms by simp
  show "0 \<le> \<lfloor>Rep_draw r * of_int n\<rfloor>" using r(1) n by simp
  have "Rep_draw r * of_int n < 1 * of_int n" using r(2) n by (rule mult_strict_right_mono)
  then show "\<lfloor>Rep_draw r * of_int n\<rfloor> < n" by (simp add: floor_less_iff)
qed

lemma randomDuration_bounds:
  "50 \<le> fst (randomDuration s)" "fst (randomDuration s) \<le> 549"
  using floor_draw_bounds [of 500 "fst (Math_random s)"]
  by (simp_all add: randomDuration_def split_beta)

lemma generateSpan_body_duration:
  "rq_duration (fst (generateSpan_body s)) =
     fst (randomDuration (snd (Math_random (snd (Math_random (snd (Math_random s)))))))"
  by (simp add: generateSpan_body_def openSpan_def withSpan_def Let_def split_beta)

lemma generateSpan_body_span:
  "rq_span (fst (generateSpan_body s)) = Suc (spanSeq s)"
  by (simp add: generateSpan_body_def openSpan_def withSpan_def Let_def split_beta)

lemma timers_generateSpan:
  "map (\<lambda>t. (delay t, callback t)) (drop (length (timers s)) (timers (generateSpan s))) =
     [(of_int (rq_duration (fst (generateSpan_body s))), EndSpan (fst (generateSpan_body s)))]
   \<or> map (\<lambda>t. (delay t, callback t)) (drop (length (timers s)) (timers (generateSpan s))) =
     [(of_int (rq_duration (fst (generateSpan_body s))) / 2, EndChild (Suc (rq_span (fst (generateSpan_body s))))),
      (of_int (rq_duration (fst (generateSpan_body s))), EndSpan (fst (generateSpan_body s)))]"
  by (simp add: generateSpan_def generateSpan_body_def openSpan_def withSpan_def Let_def split_beta)

subsection \<open>The state after each operation\<close>

lemma Math_random_fst [simp]: "fst (Math_random s) = rng s (rngPos s)"
  by (simp add: Math_random_def)

lemma console_log_fields [simp]:
  "config (console_log m s) = config s" "isRunning (console_log m s) = isRunning s"
  "intervalId (console_log m s) = intervalId s" "spanCount (console_log m s) = spanCount s"
  "activeSpans (console_log m s) = activeSpans s" "timers (console_log m s) = timers s"
  "timerSeq (console_log m s) = timerSeq s" "spanSeq (console_log m s) = spanSeq s"
  "rng (console_log m s) = rng s" "rngPos (console_log m s) = rngPos s"
  "traceIds (console_log m s) = traceIds s" "out (console_log m s) = out s @ [ConsoleLog m]"
  by (simp_all add: console_log_def)

lemma emitLog_out [simp]:
  "out (emitLog m v a s) =
     out s @ [LoggerEmit v (getSeverityText v) m ((''log.source'', S ''load-testing'') # a)]"
  by (simp add: emitLog_def)

lemma generateSpan_fields [simp]:
  "isRunning (generateSpan s) = isRunning s"
  "intervalId (generateSpan s) = intervalId s"
  "spanCount (generateSpan s) = Suc (spanCount s)"
  "activeSpans (generateSpan s) = activeSpans s + 1"
  "rng (generateSpan s) = rng s"
  "traceIds (generateSpan s) = traceIds s"
  by (simp_all add: generateSpan_def generateSpan_body_def openSpan_def withSpan_def Let_def split_beta)

lemma timers_generateSpan':
  "timers (generateSpan s) =
     timers s @
     (if opensChild s then
        [\<lparr>timerId = Suc (timerSeq s),
          delay = of_int (rq_duration (fst (generateSpan_body s))) / 2,
          callback = EndChild (Suc (Suc (spanSeq s)))\<rparr>,
         \<lparr>timerId = Suc (Suc (timerSeq s)),
          delay = of_int (rq_duration (fst (generateSpan_body s))),
          callback = EndSpan (fst (generateSpan_body s))\<rparr>]
      else
        [\<lparr>timerId = Suc (timerSeq s),
          delay = of_int (rq_duration (fst (generateSpan_body s))),
          callback = EndSpan (fst (generateSpan_body s))\<rparr>])"
  by (simp add: opensChild_def generateSpan_def generateSpan_body_def openSpan_def withSpan_def Let_def split_beta)

lemma timerSeq_generateSpan:
  "timerSeq (generateSpan s) = (if opensChild s then Suc (Suc (timerSeq s)) else Suc (timerSeq s))"
  by (simp add: opensChild_def generateSpan_def generateSpan_body_def openSpan_def withSpan_def Let_def split_beta)

lemma no_child:
  assumes "\<forall>i. Rep_draw (rng s i) \<le> 7 / 10"
  shows "\<not> opensChild s"
  using assms
  by (simp add: opensChild_def generateSpan_def generateSpan_body_def openSpan_def withSpan_def Let_def split_beta not_less)

lemma timersOk_iff:
  "timersOk s \<longleftrightarrow>
     distinct (map timerId (timers s)) \<and>
     (\<forall>t \<in> set (timers s). timerId t \<le> timerSeq s) \<and>
     (\<forall>i. intervalId s = Some i \<longrightarrow>
        i \<le> timerSeq s \<and>
        (\<forall>t \<in> set (timers s). timerId t = i \<longrightarrow> callback t = ScheduleNext))"
  by (cases "intervalId s") (simp_all add: timersOk_def)

lemma generateBatch_pres:
  assumes step: "\<And>s. P s \<Longrightarrow> P (generateSpan s)" and init: "P s"
  shows "P (generateBatch i s)"
  using init
proof (induction i s rule: generateBatch.induct)
  case (1 i s)
  show ?case
  proof (cases "i < batchSize (config s)")
    case True
    have "P (generateBatch (i + 1) (generateSpan s))"
      using "1.IH" [OF True] step [OF "1.prems"] by simp
    with True show ?thesis by (subst generateBatch.simps) simp
  next
    case False
    with "1.prems" show ?thesis by (subst generateBatch.simps) simp
  qed
qed

lemma generateBatch_fields [simp]:
  "config (generateBatch i s) = config s"
  "isRunning (generateBatch i s) = isRunning s"
  "intervalId (generateBatch i s) = intervalId s"
  "rng (generateBatch i s) = rng s"
  "traceIds (generateBatch i s) = traceIds s"
proof -
  have "config (generateBatch i s) = config s \<and> isRunning (generateBatch i s) = isRunning s
    \<and> intervalId (generateBatch i s) = intervalId s \<and> rng (generateBatch i s) = rng s
    \<and> traceIds (generateBatch i s) = traceIds s"
    by (rule generateBatch_pres) (simp_all add: config_generateSpan)
  then show "config (generateBatch i s) = config s"
  "isRunning (generateBatch i s) = isRunning s"
  "intervalId (generateBatch i s) = intervalId s"
  "rng (generateBatch i s) = rng s"
  "traceIds (generateBatch i s) = traceIds s" by simp_all
qed

lemma generateBatch_counts:
  "spanCount (generateBatch i s) = spanCount s + nat (batchSize (config s) - i)
   \<and> activeSpans (generateBatch i s) = activeSpans s + int (nat (batchSize (config s) - i))"
proof (induction i s rule: generateBatch.induct)
  case (1 i s)
  show ?case
  proof (cases "i < batchSize (config s)")
    case True
    then have n: "nat (batchSize (config s) - i) = Suc (nat (batchSize (config s) - (i + 1)))"
      by simp
    from "1.IH" [OF True] True show ?thesis
      by (subst (1 2) generateBatch.simps) (simp add: config_generateSpan n)
  next
    case False
    then show ?thesis by (subst (1 2) generateBatch.simps) simp
  qed
qed

lemma inflight_generateSpan: "inflight (generateSpan s) = Suc (inflight s)"
  by (simp add: inflight_def timers_generateSpan' isEndSpan_def)

lemma timersOk_generateSpan: "timersOk s \<Longrightarrow> timersOk (generateSpan s)"
  unfolding timersOk_iff
  by (auto simp: timers_generateSpan' timerSeq_generateSpan)

lemma balanced_generateSpan: "balanced s \<Longrightarrow> balanced (generateSpan s)"
  by (simp add: balanced_def timersOk_generateSpan inflight_generateSpan)

lemma balanced_generateBatch: "balanced s \<Longrightarrow> balanced (generateBatch i s)"
  by (rule generateBatch_pres) (rule balanced_generateSpan)

lemma scheduleNext_stopped: "\<not> isRunning s \<Longrightarrow> scheduleNext s = s"
  by (simp add: scheduleNext_def)

lemma scheduleNext_fields:
  assumes "isRunning s"
  shows "timers (scheduleNext s) =
           timers (generateBatch 0 s) @
           [\<lparr>timerId = Suc (timerSeq (generateBatch 0 s)),
             delay = of_int (nextInterval (config s) (rng s (rngPos (generateBatch 0 s)))),
             callback = ScheduleNext\<rparr>]"
    and "timerSeq (scheduleNext s) = Suc (timerSeq (generateBatch 0 s))"
    and "intervalId (scheduleNext s) = Some (Suc (timerSeq (generateBatch 0 s)))"
    and "activeSpans (scheduleNext s) = activeSpans (generateBatch 0 s)"
    and "spanCount (scheduleNext s) = spanCount (generateBatch 0 s)"
    and "isRunning (scheduleNext s)"
    and "out (scheduleNext s) = out (generateBatch 0 s)"
  using assms by (simp_all add: scheduleNext_def Let_def split_beta)

lemma scheduleNext_config [simp]: "config (scheduleNext s) = config s"
  by (simp add: scheduleNext_def Let_def split_beta)

lemma inflight_append: "length (filter isEndSpan (ts @ us)) = length (filter isEndSpan ts) + length (filter isEndSpan us)"
  by simp

lemma balanced_scheduleNext:
  assumes "balanced s"
  shows "balanced (scheduleNext s)"
proof (cases "isRunning s")
  case False
  with assms show ?thesis by (simp add: scheduleNext_stopped)
next
  case True
  have b: "balanced (generateBatch 0 s)" using assms by (rule balanced_generateBatch)
  then have ok: "timersOk (generateBatch 0 s)"
    and act: "activeSpans (generateBatch 0 s) = int (inflight (generateBatch 0 s))"
    by (simp_all add: balanced_def)
  have "timersOk (scheduleNext s)"
    using ok unfolding timersOk_iff scheduleNext_fields [OF True] by auto
  moreover have "inflight (scheduleNext s) = inflight (generateBatch 0 s)"
    by (simp add: inflight_def scheduleNext_fields [OF True] isEndSpan_def)
  ultimately show ?thesis
    by (simp add: balanced_def scheduleNext_fields [OF True] act)
qed

lemma endSpan_fields [simp]:
  "config (endSpan rq s) = config s" "isRunning (endSpan rq s) = isRunning s"
  "intervalId (endSpan rq s) = intervalId s" "spanCount (endSpan rq s) = spanCount s"
  "activeSpans (endSpan rq s) = activeSpans s - 1" "timers (endSpan rq s) = timers s"
  "timerSeq (endSpan rq s) = timerSeq s" "rng (endSpan rq s) = rng s"
  "traceIds (endSpan rq s) = traceIds s"
  by (simp_all add: endSpan_def Let_def)

lemma endChild_fields [simp]:
  "config (endChild c s) = config s" "isRunning (endChild c s) = isRunning s"
  "intervalId (endChild c s) = intervalId s" "spanCount (endChild c s) = spanCount s"
  "activeSpans (endChild c s) = activeSpans s" "timers (endChild c s) = timers s"
  "timerSeq (endChild c s) = timerSeq s" "rng (endChild c s) = rng s"
  "traceIds (endChild c s) = traceIds s"
  by (simp_all add: endChild_def split_beta)

lemma clearTimeout_fields [simp]:
  "config (clearTimeout i s) = config s" "isRunning (clearTimeout i s) = isRunning s"
  "intervalId (clearTimeout i s) = intervalId s" "spanCount (clearTimeout i s) = spanCount s"
  "activeSpans (clearTimeout i s) = activeSpans s"
  "timers (clearTimeout i s) = filter (\<lambda>t. timerId t \<noteq> i) (timers s)"
  "timerSeq (clearTimeout i s) = timerSeq s" "rng (clearTimeout i s) = rng s"
  "traceIds (clearTimeout i s) = traceIds s" "out (clearTimeout i s) = out s"
  "rngPos (clearTimeout i s) = rngPos s" "spanSeq (clearTimeout i s) = spanSeq s"
  by (simp_all add: clearTimeout_def)

lemma timersOk_clearTimeout: "timersOk s \<Longrightarrow> timersOk (clearTimeout i s)"
  unfolding timersOk_iff by (auto simp: distinct_map_filter)

lemma find_timer:
  "find (\<lambda>t. timerId t = i) ts = Some t \<Longrightarrow> t \<in> set ts \<and> timerId t = i"
  by (induction ts) (auto split: if_splits)

lemma filter_out_distinct:
  assumes "distinct (map timerId ts)" "t \<in> set ts"
  shows "length (filter P ts) =
         length (filter P (filter (\<lambda>u. timerId u \<noteq> timerId t) ts)) + (if P t then 1 else 0)"
  using assms
proof (induction ts)
  case Nil
  then show ?case by simp
next
  case (Cons u ts)
  show ?case
  proof (cases "u = t")
    case True
    with Cons.prems have "timerId t \<notin> timerId ` set ts" by simp
    then have "\<forall>v \<in> set ts. timerId v \<noteq> timerId t" by (metis imageI)
    then have "filter (\<lambda>u. timerId u \<noteq> timerId t) ts = ts" by (simp add: filter_id_conv)
    with True show ?thesis by simp
  next
    case False
    with Cons.prems have "t \<in> set ts" "timerId u \<noteq> timerId t" by auto
    with Cons show ?thesis by simp
  qed
qed

lemma balanced_expire:
  assumes "balanced s"
  shows "balanced (expire i s)"
proof (cases "find (\<lambda>t. timerId t = i) (timers s)")
  case None
  with assms show ?thesis by (simp add: expire_def)
next
  case (Some t)
  then have t: "t \<in> set (timers s)" "timerId t = i" using find_timer by blast+
  from assms have ok: "timersOk s" and act: "activeSpans s = int (inflight s)"
    by (simp_all add: balanced_def)
  have ok': "timersOk (clearTimeout i s)" using ok by (rule timersOk_clearTimeout)
  from ok have "distinct (map timerId (timers s))" by (simp add: timersOk_iff)
  from filter_out_distinct [OF this t(1), of isEndSpan]
  have fl: "inflight s = inflight (clearTimeout i s) + (if isEndSpan t then 1 else 0)"
    by (simp add: inflight_def t(2))
  have e: "expire i s = runCallback (callback t) (clearTimeout i s)"
    using Some by (simp add: expire_def)
  show ?thesis
  proof (cases "callback t")
    case ScheduleNext
    then have "\<not> isEndSpan t" by (simp add: isEndSpan_def)
    with fl act ok' have "balanced (clearTimeout i s)" by (simp add: balanced_def)
    then show ?thesis unfolding e ScheduleNext by (simp add: balanced_scheduleNext)
  next
    case (EndSpan rq)
    then have "isEndSpan t" by (simp add: isEndSpan_def)
    with fl act have "activeSpans s - 1 = int (inflight (clearTimeout i s))" by simp
    moreover have "timersOk (endSpan rq (clearTimeout i s))"
      using ok' by (simp add: timersOk_iff)
    ultimately show ?thesis unfolding e EndSpan
      by (simp add: balanced_def inflight_def)
  next
    case (EndChild c)
    then have "\<not> isEndSpan t" by (simp add: isEndSpan_def)
    with fl act have "activeSpans s = int (inflight (clearTimeout i s))" by simp
    moreover have "timersOk (endChild c (clearTimeout i s))"
      using ok' by (simp add: timersOk_iff)
    ultimately show ?thesis unfolding e EndChild
      by (simp add: balanced_def inflight_def)
  qed
qed

lemma updateUI_fields [simp]:
  "config (updateUI s) = config s" "isRunning (updateUI s) = isRunning s"
  "intervalId (updateUI s) = intervalId s" "spanCount (updateUI s) = spanCount s"
  "activeSpans (updateUI s) = activeSpans s" "timers (updateUI s) = timers s"
  "timerSeq (updateUI s) = timerSeq s" "spanSeq (updateUI s) = spanSeq s"
  "rng (updateUI s) = rng s" "rngPos (updateUI s) = rngPos s"
  "traceIds (updateUI s) = traceIds s"
  "out (updateUI s) = out s @ [UpdateUI (isRunning s) (spanCount s)]"
  by (simp_all add: updateUI_def)

lemma updateCounter_fields [simp]:
  "config (updateCounter s) = config s" "isRunning (updateCounter s) = isRunning s"
  "intervalId (updateCounter s) = intervalId s" "spanCount (updateCounter s) = spanCount s"
  "activeSpans (updateCounter s) = activeSpans s" "timers (updateCounter s) = timers s"
  "timerSeq (updateCounter s) = timerSeq s"
  by (simp_all add: updateCounter_def)

lemma updateConfig_fields [simp]:
  "isRunning (updateConfig a b c s) = isRunning s"
  "intervalId (updateConfig a b c s) = intervalId s" "spanCount (updateConfig a b c s) = spanCount s"
  "activeSpans (updateConfig a b c s) = activeSpans s" "timers (updateConfig a b c s) = timers s"
  "timerSeq (updateConfig a b c s) = timerSeq s"
  by (simp_all add: updateConfig_def Let_def split: option.splits)

lemma startLoadTest_started: "\<not> isRunning s \<Longrightarrow> startLoadTest s = scheduleNext (started s)"
  by (simp add: startLoadTest_def started_def Let_def)

lemma startLoadTest_running:
  "isRunning s \<Longrightarrow> startLoadTest s = console_log ''Load test already running'' s"
  by (simp add: startLoadTest_def)

lemma started_fields [simp]:
  "config (started s) = config s" "isRunning (started s)"
  "intervalId (started s) = intervalId s" "spanCount (started s) = 0"
  "activeSpans (started s) = 0" "timers (started s) = timers s"
  "timerSeq (started s) = timerSeq s" "spanSeq (started s) = spanSeq s"
  "rng (started s) = rng s" "rngPos (started s) = rngPos s"
  "traceIds (started s) = traceIds s"
  by (simp_all add: started_def)

lemma balanced_startLoadTest:
  assumes "balanced s" "\<not> isRunning s \<longrightarrow> inflight s = 0"
  shows "balanced (startLoadTest s)"
proof (cases "isRunning s")
  case True
  with assms(1) show ?thesis
    by (simp add: startLoadTest_running balanced_def timersOk_iff inflight_def)
next
  case False
  with assms have "balanced (started s)"
    by (simp add: balanced_def timersOk_iff inflight_def)
  then show ?thesis using False by (simp add: startLoadTest_started balanced_scheduleNext)
qed

lemma stopLoadTest_stopped:
  "\<not> isRunning s \<Longrightarrow> stopLoadTest s = console_log ''Load test not running'' s"
  by (simp add: stopLoadTest_def)

lemma stopLoadTest_fields:
  assumes "isRunning s"
  shows "timers (stopLoadTest s) =
           (case intervalId s of
              Some i \<Rightarrow> if i \<noteq> 0 then filter (\<lambda>t. timerId t \<noteq> i) (timers s) else timers s
            | None \<Rightarrow> timers s)"
    and "intervalId (stopLoadTest s) =
           (case intervalId s of Some i \<Rightarrow> if i \<noteq> 0 then None else Some i | None \<Rightarrow> None)"
    and "timerSeq (stopLoadTest s) = timerSeq s"
    and "activeSpans (stopLoadTest s) = activeSpans s"
    and "spanCount (stopLoadTest s) = spanCount s"
    and "\<not> isRunning (stopLoadTest s)"
    and "config (stopLoadTest s) = config s"
    and "out (stopLoadTest s) =
           out s @
           [LoggerEmit 9 ''INFO'' ''Load test stopped''
              [(''log.source'', S ''load-testing''), (''test.action'', S ''stop''),
               (''total.spans'', N (int (spanCount s)))],
            ConsoleLog (''Load test stopped. Total spans generated: ''
                          @ toString (int (spanCount s))),
            UpdateUI False (spanCount s)]"
  using assms
  by (simp_all add: stopLoadTest_def Let_def SeverityNumber_INFO_def getSeverityText_def
      SeverityNumber_DEBUG_def split: option.splits)

lemma filter_keeps_inflight:
  assumes "\<forall>t \<in> set ts. timerId t = i \<longrightarrow> callback t = ScheduleNext"
  shows "filter isEndSpan (filter (\<lambda>t. timerId t \<noteq> i) ts) = filter isEndSpan ts"
  using assms by (induction ts) (auto simp: isEndSpan_def)

lemma balanced_stopLoadTest:
  assumes "balanced s"
  shows "balanced (stopLoadTest s)"
proof (cases "isRunning s")
  case False
  with assms show ?thesis
    by (simp add: stopLoadTest_stopped balanced_def timersOk_iff inflight_def)
next
  case True
  from assms have ok: "timersOk s" and act: "activeSpans s = int (inflight s)"
    by (simp_all add: balanced_def)
  show ?thesis
  proof (cases "intervalId s")
    case None
    with ok act show ?thesis
      by (simp add: balanced_def timersOk_iff inflight_def stopLoadTest_fields [OF True])
  next
    case (Some i)
    with ok have sched: "\<forall>t \<in> set (timers s). timerId t = i \<longrightarrow> callback t = ScheduleNext"
      by (simp add: timersOk_iff)
    have "timersOk (stopLoadTest s)"
      using ok Some unfolding timersOk_iff stopLoadTest_fields [OF True]
      by (auto simp: distinct_map_filter)
    moreover have "inflight (stopLoadTest s) = inflight s"
      using Some filter_keeps_inflight [OF sched]
      by (simp add: inflight_def stopLoadTest_fields [OF True])
    ultimately show ?thesis by (simp add: balanced_def act stopLoadTest_fields [OF True])
  qed
qed

lemma balanced_step:
  assumes "balanced s" "e = ClickStart \<and> \<not> isRunning s \<longrightarrow> inflight s = 0"
  shows "balanced (step s e)"
proof (cases e)
  case ClickStart
  with assms show ?thesis by (simp add: balanced_startLoadTest)
next
  case ClickStop
  with assms show ?thesis by (simp add: balanced_stopLoadTest)
next
  case (Input a b c)
  with assms show ?thesis by (simp add: balanced_def timersOk_iff inflight_def)
next
  case Refresh
  with assms show ?thesis by (simp add: balanced_def timersOk_iff inflight_def)
next
  case (Timeout i)
  with assms show ?thesis by (simp add: balanced_expire)
qed

lemma balanced_run: "balanced s \<Longrightarrow> calm s es \<Longrightarrow> balanced (run s es)"
proof (induction es arbitrary: s)
  case Nil
  then show ?case by (simp add: run_def)
next
  case (Cons e es)
  from Cons.prems have "balanced (step s e)" "calm (step s e) es"
    by (simp_all add: balanced_step)
  then have "balanced (run (step s e) es)" by (rule Cons.IH)
  then show ?case by (simp add: run_def)
qed

lemma balanced_initialState: "balanced (initialState rnd tids)"
  by (simp add: balanced_def timersOk_iff inflight_def initialState_def)

lemma inflight_generateBatch:
  "inflight (generateBatch i s) = inflight s + nat (batchSize (config s) - i)"
proof (induction i s rule: generateBatch.induct)
  case (1 i s)
  show ?case
  proof (cases "i < batchSize (config s)")
    case True
    then have n: "nat (batchSize (config s) - i) = Suc (nat (batchSize (config s) - (i + 1)))"
      by simp
    from "1.IH" [OF True] True show ?thesis
      by (subst generateBatch.simps) (simp add: config_generateSpan n inflight_generateSpan)
  next
    case False
    then show ?thesis by (subst generateBatch.simps) simp
  qed
qed

lemma startLoadTest_counts:
  assumes "\<not> isRunning s"
  shows "spanCount (startLoadTest s) = nat (batchSize (config s))"
    and "activeSpans (startLoadTest s) = int (nat (batchSize (config s)))"
    and "inflight (startLoadTest s) = inflight s + nat (batchSize (config s))"
    and "isRunning (startLoadTest s)"
proof -
  have r: "isRunning (started s)" by simp
  show "spanCount (startLoadTest s) = nat (batchSize (config s))"
    using generateBatch_counts [of 0 "started s"]
    by (simp add: startLoadTest_started [OF assms] scheduleNext_fields [OF r])
  show "activeSpans (startLoadTest s) = int (nat (batchSize (config s)))"
    using generateBatch_counts [of 0 "started s"]
    by (simp add: startLoadTest_started [OF assms] scheduleNext_fields [OF r])
  show "inflight (startLoadTest s) = inflight s + nat (batchSize (config s))"
    using inflight_generateBatch [of 0 "started s"]
    by (simp add: startLoadTest_started [OF assms] inflight_def scheduleNext_fields [OF r]
        isEndSpan_def)
  show "isRunning (startLoadTest s)"
    by (simp add: startLoadTest_started [OF assms] scheduleNext_fields [OF r])
qed

lemma scheduleNext_frame [simp]:
  "rng (scheduleNext s) = rng s" "traceIds (scheduleNext s) = traceIds s"
  by (simp_all add: scheduleNext_def Let_def split_beta)

lemma startLoadTest_frame [simp]:
  "rng (startLoadTest s) = rng s" "traceIds (startLoadTest s) = traceIds s"
  "config (startLoadTest s) = config s"
  by (cases "isRunning s"; simp add: startLoadTest_started startLoadTest_running)+

lemma stopLoadTest_frame [simp]:
  "rng (stopLoadTest s) = rng s" "traceIds (stopLoadTest s) = traceIds s"
  "config (stopLoadTest s) = config s"
  by (simp_all add: stopLoadTest_def Let_def split: option.splits)

lemma generateBatch_one:
  assumes "batchSize (config s) = 1"
  shows "generateBatch 0 s = generateSpan s"
proof -
  have "generateBatch 0 s = generateBatch 1 (generateSpan s)"
    using assms by (subst generateBatch.simps) simp
  also have "\<dots> = generateSpan s"
    using assms by (subst generateBatch.simps) (simp add: config_generateSpan)
  finally show ?thesis .
qed

lemma halves_no_child: "rng s = halves \<Longrightarrow> \<not> opensChild s"
  by (rule no_child) (simp add: halves_def drawOf.rep_eq)

lemma start_one:
  assumes "\<not> isRunning s" "batchSize (config s) = 1" "\<not> opensChild (started s)"
  shows "\<exists>d rq d'. timers (startLoadTest s) =
           timers s @ [\<lparr>timerId = Suc (timerSeq s), delay = d, callback = EndSpan rq\<rparr>,
                       \<lparr>timerId = Suc (Suc (timerSeq s)), delay = d', callback = ScheduleNext\<rparr>]"
    and "timerSeq (startLoadTest s) = Suc (Suc (timerSeq s))"
    and "intervalId (startLoadTest s) = Some (Suc (Suc (timerSeq s)))"
proof -
  have r: "isRunning (started s)" by simp
  have b: "generateBatch 0 (started s) = generateSpan (started s)"
    using assms(2) by (simp add: generateBatch_one)
  show "\<exists>d rq d'. timers (startLoadTest s) =
           timers s @ [\<lparr>timerId = Suc (timerSeq s), delay = d, callback = EndSpan rq\<rparr>,
                       \<lparr>timerId = Suc (Suc (timerSeq s)), delay = d', callback = ScheduleNext\<rparr>]"
    using assms(3)
    by (simp add: startLoadTest_started [OF assms(1)] scheduleNext_fields [OF r] b
        timers_generateSpan' timerSeq_generateSpan)
  show "timerSeq (startLoadTest s) = Suc (Suc (timerSeq s))"
    using assms(3)
    by (simp add: startLoadTest_started [OF assms(1)] scheduleNext_fields [OF r] b
        timerSeq_generateSpan)
  show "intervalId (startLoadTest s) = Some (Suc (Suc (timerSeq s)))"
    using assms(3)
    by (simp add: startLoadTest_started [OF assms(1)] scheduleNext_fields [OF r] b
        timerSeq_generateSpan)
qed

lemma restart_trace:
  fixes s0 :: state
  assumes s0: "\<not> isRunning s0" "batchSize (config s0) = 1" "rng s0 = halves"
    "timers s0 = []" "timerSeq s0 = 0"
  shows "activeSpans (run s0 [ClickStart, ClickStop, ClickStart, Timeout 1, Timeout 3]) = - 1"
proof -
  define s1 where "s1 = startLoadTest s0"
  define s2 where "s2 = stopLoadTest s1"
  define s3 where "s3 = startLoadTest s2"
  define s4 where "s4 = expire 1 s3"
  define s5 where "s5 = expire 3 s4"
  have nc0: "\<not> opensChild (started s0)" using s0(3) by (simp add: halves_no_child)
  obtain d1 rq1 d2 where t1: "timers s1 =
      [\<lparr>timerId = 1, delay = d1, callback = EndSpan rq1\<rparr>,
       \<lparr>timerId = 2, delay = d2, callback = ScheduleNext\<rparr>]"
    using start_one(1) [OF s0(1,2) nc0] s0(4,5) unfolding s1_def by (auto simp: numeral_2_eq_2)
  have q1: "timerSeq s1 = 2" "intervalId s1 = Some 2"
    using start_one(2,3) [OF s0(1,2) nc0] s0(5) unfolding s1_def by simp_all
  have r1: "isRunning s1" "activeSpans s1 = 1"
    using startLoadTest_counts [OF s0(1)] s0(2) unfolding s1_def by simp_all
  have f1: "rng s1 = halves" "batchSize (config s1) = 1"
    using s0 unfolding s1_def by simp_all
  have t2: "timers s2 = [\<lparr>timerId = 1, delay = d1, callback = EndSpan rq1\<rparr>]"
    and q2: "timerSeq s2 = 2" and r2: "\<not> isRunning s2" "activeSpans s2 = 1"
    unfolding s2_def by (simp_all add: stopLoadTest_fields [OF r1(1)] t1 q1 r1)
  have f2: "rng s2 = halves" "batchSize (config s2) = 1"
    using f1 unfolding s2_def by simp_all
  have nc2: "\<not> opensChild (started s2)" using f2(1) by (simp add: halves_no_child)
  obtain d3 rq3 d4 where t3: "timers s3 =
      [\<lparr>timerId = 1, delay = d1, callback = EndSpan rq1\<rparr>,
       \<lparr>timerId = 3, delay = d3, callback = EndSpan rq3\<rparr>,
       \<lparr>timerId = 4, delay = d4, callback = ScheduleNext\<rparr>]"
    using start_one(1) [OF r2(1) f2(2) nc2] t2 q2 unfolding s3_def
    by (auto simp: eval_nat_numeral)
  have r3: "activeSpans s3 = 1"
    using startLoadTest_counts [OF r2(1)] f2(2) unfolding s3_def by simp
  have t4: "timers s4 =
      [\<lparr>timerId = 3, delay = d3, callback = EndSpan rq3\<rparr>,
       \<lparr>timerId = 4, delay = d4, callback = ScheduleNext\<rparr>]"
    and r4: "activeSpans s4 = 0"
    unfolding s4_def by (simp_all add: expire_def t3 r3)
  have "activeSpans s5 = - 1"
    unfolding s5_def by (simp add: expire_def t4 r4)
  then show ?thesis
    by (simp add: run_def s5_def s4_def s3_def s2_def s1_def)
qed

lemma calm_restart:
  fixes s0 :: state
  assumes s0: "\<not> isRunning s0" "batchSize (config s0) = 1" "rng s0 = halves"
    "timers s0 = []" "timerSeq s0 = 0"
  shows "calm s0 [ClickStart, Timeout 1, ClickStop, ClickStart]"
proof -
  define s1 where "s1 = startLoadTest s0"
  define s2 where "s2 = expire 1 s1"
  define s3 where "s3 = stopLoadTest s2"
  have nc0: "\<not> opensChild (started s0)" using s0(3) by (simp add: halves_no_child)
  obtain d1 rq1 d2 where t1: "timers s1 =
      [\<lparr>timerId = 1, delay = d1, callback = EndSpan rq1\<rparr>,
       \<lparr>timerId = 2, delay = d2, callback = ScheduleNext\<rparr>]"
    using start_one(1) [OF s0(1,2) nc0] s0(4,5) unfolding s1_def by (auto simp: numeral_2_eq_2)
  have q1: "intervalId s1 = Some 2" "isRunning s1"
    using start_one(3) [OF s0(1,2) nc0] startLoadTest_counts(4) [OF s0(1)] s0(5)
    unfolding s1_def by simp_all
  have t2: "timers s2 = [\<lparr>timerId = 2, delay = d2, callback = ScheduleNext\<rparr>]"
    and q2: "intervalId s2 = Some 2" "isRunning s2"
    unfolding s2_def by (simp_all add: expire_def t1 q1)
  have "timers s3 = []"
    unfolding s3_def by (simp add: stopLoadTest_fields [OF q2(2)] t2 q2(1))
  then have "inflight s3 = 0" by (simp add: inflight_def)
  moreover have "inflight s0 = 0" using s0(4) by (simp add: inflight_def)
  ultimately show ?thesis by (simp add: s3_def s2_def s1_def)
qed

lemma spanEvents_append: "spanEvents sp (es @ fs) = spanEvents sp es @ spanEvents sp fs"
  by (induction sp es rule: spanEvents.induct) simp_all

lemma addEvents_rngPos: "rngPos (addEvents sp d n i s) = rngPos s + nat (n - i)"
proof (induction sp d n i s rule: addEvents.induct)
  case (1 sp d n i s)
  show ?case
  proof (cases "i < n")
    case True
    obtain msg s1 where p: "randomElement logMessages s = (msg, s1)" by force
    have s1: "s1 = snd (Math_random s)" using randomElement_snd [of logMessages s] p by simp
    from True have n: "nat (n - i) = Suc (nat (n - (i + 1)))" by simp
    from True p "1.IH" [OF True p [symmetric]] show ?thesis
      by (subst addEvents.simps) (simp add: s1 n)
  next
    case False
    then show ?thesis by (subst addEvents.simps) simp
  qed
qed

lemma addEvents_out:
  "\<exists>es. out (addEvents sp d n i s) = out s @ es \<and>
        spanEvents sp es = map (\<lambda>k. eventLabel d n (i + int k)) [0..<nat (n - i)]"
proof (induction sp d n i s rule: addEvents.induct)
  case (1 sp d n i s)
  show ?case
  proof (cases "i < n")
    case True
    obtain msg s1 where p: "randomElement logMessages s = (msg, s1)" by force
    have s1: "s1 = snd (Math_random s)" using randomElement_snd [of logMessages s] p by simp
    define e where "e = SpanAddEvent sp msg
                  [(''event.index'', N i),
                   (''timestamp.relative'',
                      S (toString \<lfloor>(of_int (d * (i + 1)) :: rat) / of_int (n + 1)\<rfloor>
                         @ ''ms''))]"
    from "1.IH" [OF True p [symmetric]]
    obtain es where es: "out (addEvents sp d n (i + 1) (emit e s1)) = out (emit e s1) @ es"
      "spanEvents sp es = map (\<lambda>k. eventLabel d n (i + 1 + int k)) [0..<nat (n - (i + 1))]"
      unfolding e_def by blast
    have unf: "addEvents sp d n i s = addEvents sp d n (i + 1) (emit e s1)"
      using True p by (subst addEvents.simps) (simp add: e_def)
    have o: "out (addEvents sp d n i s) = out s @ (e # es)"
      unfolding unf es(1) by (simp add: s1)
    from True have n: "nat (n - i) = Suc (nat (n - (i + 1)))" by simp
    have fl: "\<lfloor>(of_int (d * (i + 1)) :: rat) / of_int (n + 1)\<rfloor> = d * (i + 1) div (n + 1)"
      by (rule floor_divide_of_int_eq)
    have lab: "spanEvents sp [e] = [eventLabel d n i]"
      unfolding e_def fl by (simp add: eventLabel_def)
    have "spanEvents sp (e # es) = eventLabel d n i # map (\<lambda>k. eventLabel d n (i + 1 + int k)) [0..<nat (n - (i + 1))]"
      using spanEvents_append [of sp "[e]" es] lab es(2) by simp
    also have "\<dots> = map (\<lambda>k. eventLabel d n (i + int k)) [0..<nat (n - i)]"
      unfolding n by (simp add: upt_conv_Cons map_Suc_upt [symmetric] del: upt_Suc add: comp_def algebra_simps)
    finally show ?thesis using o by blast
  next
    case False
    then show ?thesis by (subst addEvents.simps) simp
  qed
qed

lemma generateSpan_body_fst: "fst (generateSpan_body s) = fst (openSpan s)"
  by (simp add: generateSpan_body_def split_beta)

lemma generateSpan_withSpan: "generateSpan s = withSpan (fst (openSpan s)) (snd (openSpan s))"
  by (simp add: generateSpan_def generateSpan_body_def split_beta)

lemma openSpan_request:
  "rq_span (fst (openSpan s)) = Suc (spanSeq s)"
  "rq_endpoint (fst (openSpan s)) = endpoints ! nat \<lfloor>Rep_draw (rng s (rngPos s)) * 8\<rfloor>"
  "rq_method (fst (openSpan s)) = httpMethods ! nat \<lfloor>Rep_draw (rng s (Suc (rngPos s))) * 4\<rfloor>"
  "rq_statusCode (fst (openSpan s)) =
     statusCodes ! nat \<lfloor>Rep_draw (rng s (Suc (Suc (rngPos s)))) * 9\<rfloor>"
  "rq_duration (fst (openSpan s)) = \<lfloor>Rep_draw (rng s (Suc (Suc (Suc (rngPos s))))) * 500\<rfloor> + 50"
  "rq_isError (fst (openSpan s)) = (400 \<le> rq_statusCode (fst (openSpan s)))"
  by (simp_all add: openSpan_def Let_def split_beta randomElement_def randomDuration_def
      endpoints_def httpMethods_def statusCodes_def)

lemma openSpan_out:
  "out (snd (openSpan s)) =
     out s @
     [MeterAdd ActiveSpansGauge 1 [],
      SpanStart (Suc (spanSeq s)) None
        (rq_method (fst (openSpan s)) @ '' '' @ rq_endpoint (fst (openSpan s)))
        [(''http.method'', S (rq_method (fst (openSpan s)))),
         (''http.url'', S (''https://example.com'' @ rq_endpoint (fst (openSpan s)))),
         (''http.route'', S (rq_endpoint (fst (openSpan s)))),
         (''http.status_code'', N (rq_statusCode (fst (openSpan s)))),
         (''span.number'', N (int (Suc (spanCount s))))],
      MeterAdd RequestCounter 1
        [(''method'', S (rq_method (fst (openSpan s)))),
         (''endpoint'', S (rq_endpoint (fst (openSpan s)))),
         (''status_code'', S (toString (rq_statusCode (fst (openSpan s)))))],
      LoggerEmit 9 ''INFO''
        (''Starting '' @ rq_method (fst (openSpan s)) @ '' '' @ rq_endpoint (fst (openSpan s)))
        [(''log.source'', S ''load-testing''),
         (''http.method'', S (rq_method (fst (openSpan s)))),
         (''http.url'', S (rq_endpoint (fst (openSpan s)))),
         (''span.id'', N (int (Suc (spanCount s))))]]"
  by (simp add: openSpan_def Let_def split_beta SeverityNumber_INFO_def getSeverityText_def
      SeverityNumber_DEBUG_def)

lemma withSpan_out:
  "\<exists>es post. out (withSpan rq s) = out s @ es @ post
     \<and> spanEvents (rq_span rq) es =
         map (\<lambda>k. eventLabel (rq_duration rq) (\<lfloor>Rep_draw (rng s (rngPos s)) * 3\<rfloor> + 1) (int k))
           [0..<nat (\<lfloor>Rep_draw (rng s (rngPos s)) * 3\<rfloor> + 1)]
     \<and> spanEvents (rq_span rq) post = []"
proof -
  define n where "n = \<lfloor>Rep_draw (rng s (rngPos s)) * 3\<rfloor> + 1"
  from addEvents_out [of "rq_span rq" "rq_duration rq" n 0 "snd (Math_random s)"]
  obtain es where es: "out (addEvents (rq_span rq) (rq_duration rq) n 0 (snd (Math_random s))) = out s @ es"
    "spanEvents (rq_span rq) es = map (\<lambda>k. eventLabel (rq_duration rq) n (int k)) [0..<nat n]"
    by auto
  have "\<exists>post. out (withSpan rq s) = out s @ es @ post \<and> spanEvents (rq_span rq) post = []"
    by (simp add: withSpan_def Let_def split_beta n_def [symmetric] es(1))
  with es(2) show ?thesis unfolding n_def by blast
qed

lemma endSpan_out:
  "out (endSpan rq s) =
     out s @
     (if rq_isError rq then
        [SpanSetStatus (rq_span rq) 2 (Some (''HTTP '' @ toString (rq_statusCode rq) @ '' Error'')),
         MeterAdd ErrorCounter 1
           [(''status_code'', S (toString (rq_statusCode rq))), (''endpoint'', S (rq_endpoint rq))],
         LoggerEmit 17 ''ERROR''
           (''Error: '' @ rq_method rq @ '' '' @ rq_endpoint rq @ '' returned ''
              @ toString (rq_statusCode rq))
           [(''log.source'', S ''load-testing''), (''http.method'', S (rq_method rq)),
            (''http.url'', S (rq_endpoint rq)), (''http.status_code'', N (rq_statusCode rq)),
            (''error'', B True)]]
      else
        [SpanSetStatus (rq_span rq) 1 None,
         LoggerEmit 9 ''INFO''
           (''Completed '' @ rq_method rq @ '' '' @ rq_endpoint rq @ '' in ''
              @ toString (rq_duration rq) @ ''ms'')
           [(''log.source'', S ''load-testing''), (''http.method'', S (rq_method rq)),
            (''http.url'', S (rq_endpoint rq)), (''duration_ms'', N (rq_duration rq))]]) @
     [MeterRecord RequestDuration (rq_duration rq)
        [(''method'', S (rq_method rq)), (''endpoint'', S (rq_endpoint rq)),
         (''status_code'', S (toString (rq_statusCode rq)))],
      SpanEnd (rq_span rq),
      MeterAdd ActiveSpansGauge (- 1) [],
      ConsoleLog (''[Span #'' @ toString (int (spanCount s)) @ ''] '' @ rq_method rq @ '' ''
                    @ rq_endpoint rq @ '' -> '' @ toString (rq_statusCode rq) @ '' (''
                    @ toString (rq_duration rq) @ ''ms)'')] @
     (if spanCount s mod 10 = 0 then [ConsoleLog (''Trace ID: '' @ traceIds s (rq_span rq))]
      else [])"
  by (simp add: endSpan_def Let_def SeverityNumber_INFO_def SeverityNumber_ERROR_def
      SeverityNumber_WARN_def SeverityNumber_DEBUG_def getSeverityText_def)

lemma updateConfig_eq:
  "updateConfig a b c s =
     s\<lparr>config := config (updateConfig a b c s),
       out := out s @
         [ConsoleLog (''Config updated: interval=''
            @ toString (minInterval (config (updateConfig a b c s))) @ ''-''
            @ toString (maxInterval (config (updateConfig a b c s))) @ ''ms, batch=''
            @ toString (batchSize (config (updateConfig a b c s))))]\<rparr>"
  by (simp add: updateConfig_def Let_def console_log_def split: option.splits)

lemma updateConfig_config:
  "minInterval (config (updateConfig a b c s)) =
     (if validMin a then the a else minInterval (config s))"
  "maxInterval (config (updateConfig a b c s)) =
     (if validMax (minInterval (config (updateConfig a b c s))) b then the b
      else maxInterval (config s))"
  "batchSize (config (updateConfig a b c s)) =
     (if validBatch c then the c else batchSize (config s))"
  by (simp_all add: updateConfig_def Let_def console_log_def validMin_def validMax_def
      validBatch_def split: option.splits)

lemma nextInterval_within:
  assumes "minInterval c \<le> maxInterval c"
  shows "minInterval c \<le> nextInterval c r \<and> nextInterval c r \<le> maxInterval c
         \<and> (minInterval c = maxInterval c \<longrightarrow> nextInterval c r = minInterval c)"
proof (cases "minInterval c = maxInterval c")
  case True
  then show ?thesis by (simp add: nextInterval_def)
next
  case False
  with assms have "0 < maxInterval c - minInterval c" by simp
  from floor_draw_bounds [OF this, of r] False show ?thesis
    by (simp add: nextInterval_def Let_def)
qed

lemma expire_config [simp]: "config (expire i s) = config s"
proof (cases "find (\<lambda>t. timerId t = i) (timers s)")
  case None
  then show ?thesis by (simp add: expire_def)
next
  case (Some t)
  then show ?thesis by (cases "callback t") (simp_all add: expire_def)
qed

lemma config_bounds_step:
  assumes "10 \<le> minInterval (config s) \<and> 1 \<le> batchSize (config s)"
  shows "10 \<le> minInterval (config (step s e)) \<and> 1 \<le> batchSize (config (step s e))"
  using assms
  by (cases e) (simp_all add: updateConfig_config validMin_def validBatch_def split: option.splits)

lemma config_bounds_run:
  "10 \<le> minInterval (config (run (initialState rnd tids) es))
   \<and> 1 \<le> batchSize (config (run (initialState rnd tids) es))"
proof -
  have "10 \<le> minInterval (config (run s es)) \<and> 1 \<le> batchSize (config (run s es))"
    if "10 \<le> minInterval (config s) \<and> 1 \<le> batchSize (config s)" for s
    using that
  proof (induction es arbitrary: s)
    case Nil
    then show ?case by (simp add: run_def)
  next
    case (Cons e es)
    from Cons.IH [OF config_bounds_step [OF Cons.prems, of e]] show ?case by (simp add: run_def)
  qed
  then show ?thesis by (simp add: initialState_def)
qed

lemma startLoadTest_next:
  assumes "\<not> isRunning s"
  shows "last (timers (startLoadTest s)) =
           \<lparr>timerId = Suc (timerSeq (generateBatch 0 (started s))),
             delay = of_int (nextInterval (config s) (rng s (rngPos (generateBatch 0 (started s))))),
             callback = ScheduleNext\<rparr>"
proof -
  have r: "isRunning (started s)" by simp
  show ?thesis by (simp add: startLoadTest_started [OF assms] scheduleNext_fields [OF r])
qed

lemma generateSpan_extends:
  "\<exists>ts es. timers (generateSpan s) = timers s @ ts \<and> out (generateSpan s) = out s @ es"
proof -
  obtain es post where
    "out (withSpan (fst (openSpan s)) (snd (openSpan s))) = out (snd (openSpan s)) @ es @ post"
    using withSpan_out by blast
  then have "\<exists>es. out (generateSpan s) = out s @ es"
    by (simp add: generateSpan_withSpan openSpan_out)
  then show ?thesis by (simp add: timers_generateSpan')
qed

lemma generateBatch_extends:
  "\<exists>ts es. timers (generateBatch i s) = timers s @ ts \<and> out (generateBatch i s) = out s @ es"
proof (rule generateBatch_pres)
  fix s' :: state
  assume "\<exists>ts es. timers s' = timers s @ ts \<and> out s' = out s @ es"
  then obtain ts es where a: "timers s' = timers s @ ts" "out s' = out s @ es" by blast
  obtain ts' es' where "timers (generateSpan s') = timers s' @ ts'"
    "out (generateSpan s') = out s' @ es'"
    using generateSpan_extends by blast
  with a show "\<exists>ts es. timers (generateSpan s') = timers s @ ts \<and> out (generateSpan s') = out s @ es"
    by simp
next
  show "\<exists>ts es. timers s = timers s @ ts \<and> out s = out s @ es" by simp
qed

lemma trace_id_iff:
  "ConsoleLog (''Trace ID: '' @ traceIds s (rq_span rq)) \<in> set (emitted s (endSpan rq s))
     \<longleftrightarrow> spanCount s mod 10 = 0"
  by (simp add: emitted_def endSpan_out)

text \<open>
  What the code does keep: generating a request adds one to the active count and its
  completion subtracts one, and along a calm sequence of events the active count is the
  number of requests in flight.
\<close>

lemma active_count_in_flight:
  "activeSpans (generateSpan s) = activeSpans s + 1
   \<and> activeSpans (endSpan rq s') = activeSpans s' - 1
   \<and> activeSpans (endSpan rq (generateSpan s)) = activeSpans s
   \<and> (calm (initialState rnd tids) es \<longrightarrow>
        activeSpans (run (initialState rnd tids) es) = int (inflight (run (initialState rnd tids) es))
        \<and> 0 \<le> activeSpans (run (initialState rnd tids) es))"
proof -
  have "balanced (run (initialState rnd tids) es)" if "calm (initialState rnd tids) es"
    using balanced_initialState that by (rule balanced_run)
  then show ?thesis by (simp add: balanced_def)
qed

section \<open>The claims\<close>

subsection \<open>Stop right after start\<close>

text \<open>
  C1, as the code has it. \<^verbatim>\<open>startLoadTest\<close> runs the first cycle itself, before any
  interval: when the generator is stopped and Start then Stop are clicked, exactly
  \<open>batchSize\<close> requests have been generated (none when \<open>batchSize\<close> is below one) and
  are in flight, and Stop emits exactly one stopped event, which carries that count as
  the total.
\<close>

theorem stop_after_start:
  assumes "\<not> isRunning s"
  shows "let s1 = startLoadTest s; s2 = stopLoadTest s1; n = nat (batchSize (config s)) in
     spanCount s1 = n \<and> inflight s1 = inflight s + n \<and> spanCount s2 = n \<and> \<not> isRunning s2 \<and>
     out s2 = out s1 @
       [LoggerEmit 9 ''INFO'' ''Load test stopped''
          [(''log.source'', S ''load-testing''), (''test.action'', S ''stop''),
           (''total.spans'', N (int n))],
        ConsoleLog (''Load test stopped. Total spans generated: '' @ toString (int n)),
        UpdateUI False n]"
  using startLoadTest_counts [OF assms]
  by (simp add: Let_def stopLoadTest_fields)

theorem stop_after_start_witness:
  "\<not> isRunning (initialState halves exampleIds) \<and>
   spanCount (stopLoadTest (startLoadTest (initialState halves exampleIds))) = 1"
  using stop_after_start [of "initialState halves exampleIds"]
  by (simp add: Let_def initialState_def)

text \<open>
  C1 as stated fails: from the module as loaded (\<open>batchSize = 1\<close>), Start followed at
  once by Stop leaves one request generated, and the stopped event carries the total 1.
\<close>

theorem first_batch_at_start:
  "spanCount (run (initialState halves exampleIds) [ClickStart, ClickStop]) = 1 \<and>
   LoggerEmit 9 ''INFO'' ''Load test stopped''
     [(''log.source'', S ''load-testing''), (''test.action'', S ''stop''),
      (''total.spans'', N 1)]
   \<in> set (out (run (initialState halves exampleIds) [ClickStart, ClickStop]))"
proof -
  have n: "\<not> isRunning (initialState halves exampleIds)"
    "batchSize (config (initialState halves exampleIds)) = 1"
    by (simp_all add: initialState_def)
  from startLoadTest_counts [OF n(1)] n(2) show ?thesis
    by (simp add: run_def stopLoadTest_fields)
qed

subsection \<open>The configuration invariant\<close>

text \<open>
  C2. The order of the two intervals is not kept: with the module as loaded
  (\<open>100\<close>, \<open>1000\<close>, \<open>1\<close>), an input that reads \<open>2000\<close> in the
  \<^verbatim>\<open>minInterval\<close> field, beside the \<open>1000\<close> and \<open>1\<close> shown in the other two,
  raises \<^verbatim>\<open>minInterval\<close> above \<^verbatim>\<open>maxInterval\<close>. (The two lower bounds are
  kept along every run: \<open>config_bounds_run\<close>.)
\<close>

theorem min_raised_above_max:
  "config (run (initialState halves exampleIds) [Input (Some 2000) (Some 1000) (Some 1)])
     = \<lparr>minInterval = 2000, maxInterval = 1000, batchSize = 1\<rparr>"
  by (simp add: run_def updateConfig_def Let_def initialState_def console_log_def)

subsection \<open>The active count\<close>

text \<open>
  C3. The active count does go negative. \<^verbatim>\<open>startLoadTest\<close> sets
  \<^verbatim>\<open>activeSpans\<close> to zero (line 306) while the completion registered by the previous
  run is still pending and will still decrement it. With the module as loaded and every
  draw \<open>1/2\<close>: Start, Stop, Start, then the completion of the first request (timer 1)
  and of the second (timer 3) leave the count at \<open>-1\<close>. The second request saw the
  count \<open>0\<close> before its generation and \<open>-1\<close> after its completion, so its
  lifecycle is not net zero either.
\<close>

theorem restart_goes_negative:
  "activeSpans (run (initialState halves exampleIds)
                  [ClickStart, ClickStop, ClickStart, Timeout 1, Timeout 3]) = - 1"
  by (rule restart_trace) (simp_all add: initialState_def)

subsection \<open>The trace id\<close>

text \<open>
  C4. The completion tests the counter of the module when it runs, not the number of its
  own request (\<open>trace_id_iff\<close>). With \<open>batchSize = 10\<close>, Start generates ten requests
  at once; the first of them, started with \<open>span.number = 1\<close>, completes when timer 1
  expires, is logged as \<open>Span #10\<close> and has its trace id printed.
\<close>

theorem trace_id_by_module_counter:
  "let s0 = updateConfig None None (Some 10) (initialState halves exampleIds);
       rq = fst (generateSpan_body (started s0));
       s = run (initialState halves exampleIds) [Input None None (Some 10), ClickStart]
   in rq_span rq = 1
      \<and> hd (timers s) = \<lparr>timerId = 1, delay = of_int (rq_duration rq), callback = EndSpan rq\<rparr>
      \<and> SpanStart 1 None ''PUT /api/inventory''
           [(''http.method'', S ''PUT''), (''http.url'', S ''https://example.com/api/inventory''),
            (''http.route'', S ''/api/inventory''), (''http.status_code'', N 201),
            (''span.number'', N 1)] \<in> set (out s)
      \<and> spanCount s = 10
      \<and> drop 5 (emitted s (step s (Timeout 1))) =
          [ConsoleLog ''[Span #10] PUT /api/inventory -> 201 (300ms)'',
           ConsoleLog ''Trace ID: trace-1'']"
proof -
  define s0 where "s0 = updateConfig None None (Some 10) (initialState halves exampleIds)"
  define rq where "rq = fst (generateSpan_body (started s0))"
  define s where "s = startLoadTest s0"
  have c: "batchSize (config s0) = 10" "\<not> isRunning s0" "rng s0 = halves" "timers s0 = []"
    "timerSeq s0 = 0" "spanSeq s0 = 0" "rngPos s0 = 0" "traceIds s0 = exampleIds" "spanCount s0 = 0"
    unfolding s0_def by (simp_all add: updateConfig_def Let_def initialState_def console_log_def)
  have h: "Rep_draw (halves k) = 1 / 2" for k by (simp add: halves_def drawOf.rep_eq)
  have f: "\<lfloor>9 / 2 :: rat\<rfloor> = 4" by (simp add: floor_eq_iff)
  have rqf: "rq_span rq = 1" "rq_method rq = ''PUT''" "rq_endpoint rq = ''/api/inventory''"
    "rq_statusCode rq = 201" "rq_duration rq = 300" "\<not> rq_isError rq"
    unfolding rq_def generateSpan_body_fst
    by (simp_all add: openSpan_request c h f endpoints_def httpMethods_def statusCodes_def)
  have nc: "\<not> opensChild (started s0)" using c(3) by (simp add: halves_no_child)
  have r: "isRunning (started s0)" by simp
  have g: "generateBatch 0 (started s0) = generateBatch 1 (generateSpan (started s0))"
    using c(1) by (subst generateBatch.simps) simp
  obtain ts es where x:
    "timers (generateBatch 0 (started s0)) = timers (generateSpan (started s0)) @ ts"
    "out (generateBatch 0 (started s0)) = out (generateSpan (started s0)) @ es"
    unfolding g using generateBatch_extends by blast
  have t1: "timers (generateSpan (started s0)) =
              [\<lparr>timerId = 1, delay = of_int (rq_duration rq), callback = EndSpan rq\<rparr>]"
    using nc by (simp add: timers_generateSpan' c rq_def)
  obtain l where ts:
    "timers s = \<lparr>timerId = 1, delay = of_int (rq_duration rq), callback = EndSpan rq\<rparr> # ts @ [l]"
    unfolding s_def by (simp add: startLoadTest_started [OF c(2)] scheduleNext_fields [OF r] x(1) t1)
  obtain es' post where y:
    "out (generateSpan (started s0)) = out (snd (openSpan (started s0))) @ es' @ post"
    unfolding generateSpan_withSpan using withSpan_out by blast
  have st: "SpanStart 1 None ''PUT /api/inventory''
           [(''http.method'', S ''PUT''), (''http.url'', S ''https://example.com/api/inventory''),
            (''http.route'', S ''/api/inventory''), (''http.status_code'', N 201),
            (''span.number'', N 1)] \<in> set (out s)"
    using rqf unfolding s_def rq_def generateSpan_body_fst
    by (simp add: startLoadTest_started [OF c(2)] scheduleNext_fields [OF r] x(2) y openSpan_out c)
  have n: "spanCount s = 10"
    unfolding s_def using startLoadTest_counts(1) [OF c(2)] c(1) by simp
  have tid: "traceIds s = exampleIds" unfolding s_def by (simp add: c)
  have d: "toString 10 = ''10''" "toString 201 = ''201''" "toString 300 = ''300''"
    "exampleIds (Suc 0) = ''trace-1''"
    by (simp_all add: toString_def exampleIds_def digitsOf.simps [of 10] digitsOf.simps [of 1]
        digitsOf.simps [of 0] digitsOf.simps [of 201] digitsOf.simps [of 20] digitsOf.simps [of 2]
        digitsOf.simps [of 300] digitsOf.simps [of 30] digitsOf.simps [of 3]
        digitsOf.simps [of "Suc 0"])
  have e: "step s (Timeout 1) = endSpan rq (clearTimeout 1 s)"
    by (simp add: expire_def ts)
  have "drop 5 (emitted s (step s (Timeout 1))) =
          [ConsoleLog ''[Span #10] PUT /api/inventory -> 201 (300ms)'',
           ConsoleLog ''Trace ID: trace-1'']"
    unfolding e emitted_def by (simp add: endSpan_out rqf n d tid)
  moreover have "hd (timers s) = \<lparr>timerId = 1, delay = of_int (rq_duration rq), callback = EndSpan rq\<rparr>"
    by (simp add: ts)
  ultimately show ?thesis
    using rqf(1) st n
    by (simp add: Let_def run_def s_def [symmetric] s0_def [symmetric] rq_def [symmetric])
qed

subsection \<open>Configuration updates\<close>

text \<open>
  C5. \<^verbatim>\<open>updateConfig\<close> takes each candidate by its own predicate and otherwise leaves
  the field as it was; the current \<^verbatim>\<open>minInterval\<close> that the \<^verbatim>\<open>maxInterval\<close>
  candidate is compared with is the one in force when that candidate is examined, that
  is, after the \<^verbatim>\<open>minInterval\<close> candidate of the same call. Nothing else changes
  but the console, which gets one line and no error; when all three candidates are
  invalid the configuration is unchanged.
\<close>

theorem updateConfig_fieldwise:
  "let s' = updateConfig a b c s; old = config s; new = config s' in
     minInterval new = (if validMin a then the a else minInterval old)
     \<and> maxInterval new = (if validMax (minInterval new) b then the b else maxInterval old)
     \<and> batchSize new = (if validBatch c then the c else batchSize old)
     \<and> s' = s\<lparr>config := new,
               out := out s @
                 [ConsoleLog (''Config updated: interval='' @ toString (minInterval new) @ ''-''
                    @ toString (maxInterval new) @ ''ms, batch='' @ toString (batchSize new))]\<rparr>
     \<and> (\<not> validMin a \<and> \<not> validMax (minInterval new) b \<and> \<not> validBatch c \<longrightarrow> new = old)"
proof -
  have "config (updateConfig a b c s) = config s"
    if "\<not> validMin a" "\<not> validMax (minInterval (config (updateConfig a b c s))) b"
      "\<not> validBatch c"
    using that updateConfig_config [of a b c s] by (intro config.equality) simp_all
  then show ?thesis
    unfolding Let_def using updateConfig_config [of a b c s] updateConfig_eq [of a b c s]
    by simp
qed

theorem updateConfig_fieldwise_witness:
  "\<not> validMin (Some 5) \<and> \<not> validMax 100 None \<and> \<not> validBatch (Some 0)
   \<and> config (updateConfig (Some 5) None (Some 0) (initialState halves exampleIds))
       = config (initialState halves exampleIds)"
  using updateConfig_fieldwise [of "Some 5" None "Some 0" "initialState halves exampleIds"]
  by (simp add: Let_def validMin_def validMax_def validBatch_def)

subsection \<open>Completion by status code\<close>

text \<open>
  C6. The deferred completion of a request, whenever it runs: with a status code of 400 or
  more it sets the error status with the message \<open>HTTP <code> Error\<close>, increments the
  error counter once, tagged by status code and endpoint, and emits one log entry, of
  severity ERROR; below 400 it sets the success status, emits one log entry, of severity
  INFO, reporting the duration, and leaves the error counter alone. In both cases it
  records the duration once in the histogram, tagged by method, endpoint and status code.
\<close>

theorem completion_by_status:
  "let rq = fst (generateSpan_body s);
       statusCode = rq_statusCode rq; method = rq_method rq; endpoint = rq_endpoint rq;
       duration = rq_duration rq;
       new = emitted s' (endSpan rq s')
   in setStatusCalls new =
        [if 400 \<le> statusCode
         then SpanSetStatus (rq_span rq) 2 (Some (''HTTP '' @ toString statusCode @ '' Error''))
         else SpanSetStatus (rq_span rq) 1 None]
      \<and> errorCounterAdds new =
        (if 400 \<le> statusCode
         then [MeterAdd ErrorCounter 1
                 [(''status_code'', S (toString statusCode)), (''endpoint'', S endpoint)]]
         else [])
      \<and> logEntries new =
        [if 400 \<le> statusCode
         then LoggerEmit 17 ''ERROR''
                (''Error: '' @ method @ '' '' @ endpoint @ '' returned '' @ toString statusCode)
                [(''log.source'', S ''load-testing''), (''http.method'', S method),
                 (''http.url'', S endpoint), (''http.status_code'', N statusCode),
                 (''error'', B True)]
         else LoggerEmit 9 ''INFO''
                (''Completed '' @ method @ '' '' @ endpoint @ '' in '' @ toString duration @ ''ms'')
                [(''log.source'', S ''load-testing''), (''http.method'', S method),
                 (''http.url'', S endpoint), (''duration_ms'', N duration)]]
      \<and> histogramRecords new =
        [MeterRecord RequestDuration duration
           [(''method'', S method), (''endpoint'', S endpoint),
            (''status_code'', S (toString statusCode))]]"
  by (simp add: Let_def generateSpan_body_fst emitted_def endSpan_out openSpan_request(6)
      setStatusCalls_def errorCounterAdds_def logEntries_def histogramRecords_def)

subsection \<open>Events of the primary span\<close>

text \<open>
  C7. \<^verbatim>\<open>generateSpan\<close> adds between 1 and 3 events to the primary span of a
  request, and the event at \<open>eventIndex\<close> carries its index and the label
  \<open>duration * (eventIndex + 1) div (eventCount + 1)\<close> followed by \<open>ms\<close>.
\<close>

theorem span_events:
  "let rq = fst (generateSpan_body s);
       evs = spanEvents (rq_span rq) (emitted s (generateSpan s));
       eventCount = length evs
   in 1 \<le> eventCount \<and> eventCount \<le> 3 \<and>
      evs = map (\<lambda>eventIndex. eventLabel (rq_duration rq) (int eventCount) (int eventIndex))
              [0..<eventCount]"
proof -
  define rq where "rq = fst (openSpan s)"
  define s10 where "s10 = snd (openSpan s)"
  define n where "n = \<lfloor>Rep_draw (rng s10 (rngPos s10)) * 3\<rfloor> + 1"
  from withSpan_out [of rq s10] obtain es post where
    o: "out (withSpan rq s10) = out s10 @ es @ post"
    and e: "spanEvents (rq_span rq) es = map (\<lambda>k. eventLabel (rq_duration rq) n (int k)) [0..<nat n]"
    and p: "spanEvents (rq_span rq) post = []"
    unfolding n_def by blast
  have n: "1 \<le> n" "n \<le> 3"
    using floor_draw_bounds [of 3 "rng s10 (rngPos s10)"] unfolding n_def by simp_all
  have "spanEvents (rq_span rq) (emitted s (generateSpan s)) =
          map (\<lambda>k. eventLabel (rq_duration rq) n (int k)) [0..<nat n]"
    unfolding emitted_def generateSpan_withSpan rq_def [symmetric] s10_def [symmetric] o
    by (simp add: s10_def openSpan_out spanEvents_append e p)
  moreover from n have "Suc 0 \<le> nat n" "nat n \<le> 3" by arith+
  ultimately show ?thesis
    unfolding Let_def generateSpan_body_fst rq_def [symmetric] by simp
qed

subsection \<open>The delay of the next cycle\<close>

text \<open>
  C8. With the intervals in order the delay lies between them (\<open>nextInterval_within\<close>),
  but after the input of C2 they are not: with the draw \<open>1/2\<close>, Start then schedules
  the next cycle after 1500 milliseconds, below \<^verbatim>\<open>minInterval = 2000\<close>.
\<close>

theorem delay_below_minInterval:
  "let s = run (initialState halves exampleIds) [Input (Some 2000) (Some 1000) (Some 1), ClickStart]
   in minInterval (config s) = 2000 \<and> maxInterval (config s) = 1000
      \<and> callback (last (timers s)) = ScheduleNext \<and> delay (last (timers s)) = 1500"
proof -
  define s1 where "s1 = updateConfig (Some 2000) (Some 1000) (Some 1) (initialState halves exampleIds)"
  have c: "config s1 = \<lparr>minInterval = 2000, maxInterval = 1000, batchSize = 1\<rparr>"
    "\<not> isRunning s1" "rng s1 = halves"
    unfolding s1_def by (simp_all add: updateConfig_def Let_def initialState_def console_log_def)
  have n: "nextInterval (config s1) (halves k) = 1500" for k
    by (simp add: c(1) nextInterval_def halves_def drawOf.rep_eq)
  have "last (timers (startLoadTest s1)) =
          \<lparr>timerId = Suc (timerSeq (generateBatch 0 (started s1))), delay = 1500,
            callback = ScheduleNext\<rparr>"
    unfolding startLoadTest_next [OF c(2)] by (simp add: c(3) n)
  then show ?thesis
    by (simp add: Let_def run_def s1_def [symmetric] c(1))
qed

subsection \<open>The collector stub\<close>

text \<open>
  C9. On each of the three registered routes the handler sends exactly one status, chosen
  by the method: \<open>OPTIONS\<close> gets 204 with an empty body; a method other than
  \<open>POST\<close> and \<open>OPTIONS\<close> gets 405 with the header \<open>Allow: POST\<close>; \<open>POST\<close> has its
  whole body read (nothing is left unread and the logged size is the length of the body)
  and gets 200 with the body \<open>{}\<close>. The CORS headers are present in every case.
\<close>

theorem handler_dispatch:
  assumes "Path r \<in> set registered"
  shows "let x = serve r (newExchange body) in
     length (respStatus x) = 1 \<and> cors x \<and>
     (if Method r = ''OPTIONS'' then respStatus x = [204] \<and> respBody x = []
      else if Method r \<noteq> ''POST'' then respStatus x = [405] \<and> respHeader x ''Allow'' = Some ''POST''
      else reqBody x = [] \<and> reqBodyClosed x \<and> respStatus x = [200] \<and> respBody x = ''{}''
           \<and> logged x = [''request: method=POST path='' @ Path r @ '' size_bytes=''
                           @ toString (int (length body)) @ '' remote='' @ RemoteAddr r])"
proof -
  have s: "serve r (newExchange body) = handler r (newExchange body)"
    using assms by (simp add: serve_def)
  consider "Method r = ''OPTIONS''" | "Method r \<noteq> ''OPTIONS''" "Method r \<noteq> ''POST''"
    | "Method r = ''POST''" by blast
  then show ?thesis
  proof cases
    case 1
    then show ?thesis unfolding s Let_def by (simp add: handler_OPTIONS)
  next
    case 2
    then show ?thesis unfolding s Let_def by (simp add: handler_other)
  next
    case 3
    then show ?thesis unfolding s Let_def by (simp add: handler_POST)
  qed
qed

theorem handler_dispatch_witness:
  "Path \<lparr>Method = ''POST'', Path = ''/v1/traces'', RemoteAddr = ''127.0.0.1:5000''\<rparr> \<in> set registered \<and>
   (let x = serve \<lparr>Method = ''POST'', Path = ''/v1/traces'', RemoteAddr = ''127.0.0.1:5000''\<rparr>
              (newExchange (replicate 100 (CHR ''x'')))
    in reqBody x = [] \<and> respStatus x = [200] \<and> respBody x = ''{}'' \<and>
       logged x = [''request: method=POST path=/v1/traces size_bytes=100 remote=127.0.0.1:5000''])"
proof -
  have p: "Path \<lparr>Method = ''POST'', Path = ''/v1/traces'', RemoteAddr = ''127.0.0.1:5000''\<rparr> \<in> set registered"
    by (simp add: registered_def)
  have t: "toString 100 = ''100''" by code_simp
  show ?thesis
    using p handler_dispatch [OF p, of "replicate 100 (CHR ''x'')"]
    by (simp add: Let_def t)
qed

subsection \<open>The duration\<close>

text \<open>
  C10. The duration of every simulated request is an integer from 50 to 549, so it is
  positive. \<^verbatim>\<open>generateSpan\<close> registers either the primary completion alone, after
  \<open>duration\<close> milliseconds, or first the child completion after \<open>duration / 2\<close> and then
  the primary one; \<open>duration / 2\<close> is positive and less than \<open>duration\<close>.
\<close>

theorem duration_range:
  "let rq = fst (generateSpan_body s); d = rq_duration rq;
       new = map (\<lambda>t. (delay t, callback t)) (drop (length (timers s)) (timers (generateSpan s)))
   in 50 \<le> d \<and> d \<le> 549 \<and> 0 < d
      \<and> (new = [(of_int d, EndSpan rq)]
         \<or> new = [(of_int d / 2, EndChild (Suc (rq_span rq))), (of_int d, EndSpan rq)])
      \<and> (0 :: rat) < of_int d / 2 \<and> (of_int d / 2 :: rat) < of_int d"
proof -
  define d where "d = rq_duration (fst (generateSpan_body s))"
  have b: "50 \<le> d" "d \<le> 549"
    unfolding d_def generateSpan_body_duration by (rule randomDuration_bounds)+
  then have "0 < d" "(0 :: rat) < of_int d / 2" "(of_int d / 2 :: rat) < of_int d" by simp_all
  with b timers_generateSpan [of s] show ?thesis
    unfolding Let_def d_def [symmetric] by blast
qed

end
